theory Spec2Isabelle
  imports Main "HOL-Library.Word"
begin

section \<open>The SChannel session adapter of SSL.c\<close>

text \<open>
  The development embeds the SChannel backend of \<^verbatim>\<open>src/SSL.c\<close> (the branch
  under \<^verbatim>\<open>CC_BUILD_SCHANNEL\<close>, lines 21 to 419): the raw send and receive loops,
  the handshake loop, the decrypting read, the chunked encrypting write and the
  teardown.

  The socket layer (\<^verbatim>\<open>Socket_Read\<close>, \<^verbatim>\<open>Socket_Write\<close>) and the SSPI function table
  (\<^verbatim>\<open>FP_InitializeSecurityContextA\<close>, \<^verbatim>\<open>FP_DecryptMessage\<close>, ...) are not part of the
  file. They are parameters of the model: an environment answers every external
  call, and its answer may depend on everything that happened before (the trace of
  earlier calls and answers) and on the arguments of the call. Every external call
  is appended to the trace, so "no transport read was issued" is a statement about
  the trace.
\<close>

subsection \<open>Result codes\<close>

text \<open>
  \<^verbatim>\<open>cc_result\<close> and \<^verbatim>\<open>SECURITY_STATUS\<close> are integers; zero is success for both
  (\<^verbatim>\<open>SEC_E_OK\<close>). The numeric values of the named codes come from headers outside
  the file; the code only compares them with each other and with zero, so the
  model keeps the names and folds every other value into \<open>Code\<close>.
\<close>

datatype cc_result =
    SEC_E_OK
  | SEC_I_CONTINUE_NEEDED
  | SEC_E_INCOMPLETE_MESSAGE
  | ERR_END_OF_STREAM
  | ERR_INVALID_ARGUMENT
  | ERR_NOT_SUPPORTED
  | ERR_OUT_OF_MEMORY
  | HTTP_ERR_NO_SSL
  | Code int

type_synonym byte = "8 word"
type_synonym cc_socket = int
type_synonym CredHandle = nat
type_synonym CtxtHandle = nat

text \<open>\<^verbatim>\<open>#define TLS_MAX_PACKET_SIZE (16384 + 512)\<close>\<close>

definition TLS_MAX_PACKET_SIZE :: nat where
  "TLS_MAX_PACKET_SIZE = 16384 + 512"

subsection \<open>The session\<close>

datatype isc_req =
    ISC_REQ_REPLAY_DETECT
  | ISC_REQ_SEQUENCE_DETECT
  | ISC_REQ_USE_SUPPLIED_CREDS
  | ISC_REQ_CONFIDENTIALITY
  | ISC_REQ_ALLOCATE_MEMORY
  | ISC_REQ_STREAM
  | ISC_REQ_MANUAL_CRED_VALIDATION

record SecPkgContext_StreamSizes =
  cbHeader :: nat
  cbTrailer :: nat
  cbMaximumMessage :: nat

text \<open>
  \<^verbatim>\<open>struct SSLContext\<close>. The three \<^verbatim>\<open>int\<close> fields are integers. \<^verbatim>\<open>decryptedData\<close>
  is a pointer that is either \<^verbatim>\<open>NULL\<close> or points into \<^verbatim>\<open>incoming\<close> (the engine
  decrypts in place): it is the offset into \<^verbatim>\<open>incoming\<close>, \<open>None\<close> for \<^verbatim>\<open>NULL\<close>.
  \<^verbatim>\<open>incoming\<close> is the byte array of \<^verbatim>\<open>TLS_MAX_PACKET_SIZE\<close> bytes. The field
  \<^verbatim>\<open>context\<close> is spelled \<open>context_h\<close>.
\<close>

record SSLContext =
  socket :: cc_socket
  handle :: CredHandle
  context_h :: CtxtHandle
  sizes :: SecPkgContext_StreamSizes
  flags :: "isc_req set"
  bufferLen :: int
  leftover :: int
  decryptedSize :: int
  decryptedData :: "nat option"
  incoming :: "byte list"

subsection \<open>The environment and the trace\<close>

text \<open>The arguments and the answer of \<^verbatim>\<open>FP_InitializeSecurityContextA\<close>.\<close>

record isc_call =
  phCredential :: CredHandle
  phContext :: "CtxtHandle option"
  pszTargetName :: "string option"
  fContextReq :: "isc_req set"
  pInput :: "byte list option"

text \<open>
  \<open>isc_extra = Some n\<close>: the second input buffer came back as \<^verbatim>\<open>SECBUFFER_EXTRA\<close>
  with \<^verbatim>\<open>cbBuffer = n\<close>. \<open>isc_token\<close>: the output token (\<^verbatim>\<open>pvBuffer\<close>, with
  \<^verbatim>\<open>cbBuffer\<close> its length), \<open>None\<close> for a \<^verbatim>\<open>NULL\<close> pointer.
\<close>

record isc_reply =
  isc_sec :: cc_result
  isc_context :: CtxtHandle
  isc_extra :: "nat option"
  isc_token :: "byte list option"

text \<open>
  The answer of \<^verbatim>\<open>FP_DecryptMessage\<close>: the bytes the engine left in the buffer it was
  handed (it decrypts in place), the content buffer \<^verbatim>\<open>buffers[1]\<close> as offset into
  \<^verbatim>\<open>incoming\<close> and length, and the length of \<^verbatim>\<open>buffers[3]\<close> when its type is
  \<^verbatim>\<open>SECBUFFER_EXTRA\<close>.
\<close>

record dec_reply =
  dec_sec :: cc_result
  dec_written :: "byte list"
  dec_data :: "nat \<times> nat"
  dec_extra :: "nat option"

text \<open>
  The answer of \<^verbatim>\<open>FP_EncryptMessage\<close>: the bytes the engine left in the buffer
  (header, ciphertext, trailer) and the \<^verbatim>\<open>cbBuffer\<close> of the three buffers after the
  call.
\<close>

record enc_reply =
  enc_sec :: cc_result
  enc_written :: "byte list"
  enc_cb :: "nat \<times> nat \<times> nat"

datatype event =
    EvSocketWrite cc_socket "byte list" cc_result nat
  | EvSocketRead cc_socket nat cc_result "byte list"
  | EvInitializeSecurityContext isc_call isc_reply
  | EvFreeContextBuffer
  | EvQueryContextAttributes CtxtHandle SecPkgContext_StreamSizes
  | EvAcquireCredentialsHandle bool cc_result CredHandle
  | EvDecryptMessage CtxtHandle "byte list" dec_reply
  | EvEncryptMessage CtxtHandle nat "byte list" nat enc_reply
  | EvDeleteSecurityContext CtxtHandle
  | EvFreeCredentialsHandle CredHandle
  | EvInitSecurityInterface bool
  | EvMemTryAllocCleared bool
  | EvMemFree nat

type_synonym trace = "event list"

text \<open>
  The environment. \<open>Socket_Write tr s data\<close> answers the result code and the
  number of bytes sent; \<open>Socket_Read tr s n\<close> answers the result code and the bytes
  it stored (their number is \<^verbatim>\<open>*read\<close>).
\<close>

record env =
  Socket_Write :: "trace \<Rightarrow> cc_socket \<Rightarrow> byte list \<Rightarrow> cc_result \<times> nat"
  Socket_Read :: "trace \<Rightarrow> cc_socket \<Rightarrow> nat \<Rightarrow> cc_result \<times> byte list"
  FP_InitializeSecurityContextA :: "trace \<Rightarrow> isc_call \<Rightarrow> isc_reply"
  FP_QueryContextAttributesA :: "trace \<Rightarrow> CtxtHandle \<Rightarrow> SecPkgContext_StreamSizes"
  FP_AcquireCredentialsHandleA :: "trace \<Rightarrow> bool \<Rightarrow> cc_result \<times> CredHandle"
  FP_DecryptMessage :: "trace \<Rightarrow> CtxtHandle \<Rightarrow> byte list \<Rightarrow> dec_reply"
  FP_EncryptMessage :: "trace \<Rightarrow> CtxtHandle \<Rightarrow> nat \<Rightarrow> byte list \<Rightarrow> nat \<Rightarrow> enc_reply"
  InitSecurityInterfaceA :: "trace \<Rightarrow> bool"
  Mem_TryAllocCleared :: "trace \<Rightarrow> bool"

text \<open>
  A run of a function either returns, or leaves the meaning C gives to programs
  (an access outside an array, a use of freed memory): \<open>Undefined\<close>; the two loops
  that need not terminate take a bound on their iterations and answer \<open>OutOfFuel\<close>
  when it is used up.
\<close>

datatype 'a exec = OutOfFuel | Undefined | Return 'a

subsection \<open>Memory\<close>

text \<open>
  \<open>store_bytes xs off bs\<close>: the array \<open>xs\<close> after \<open>bs\<close> was written at offset
  \<open>off\<close> (callers check that it fits). \<open>memmove_front xs src n\<close> is
  \<^verbatim>\<open>memmove(xs, xs + src, n)\<close>.
\<close>

definition store_bytes :: "byte list \<Rightarrow> nat \<Rightarrow> byte list \<Rightarrow> byte list" where
  "store_bytes xs off bs = take off xs @ bs @ drop (off + length bs) xs"

definition memmove_front :: "byte list \<Rightarrow> nat \<Rightarrow> nat \<Rightarrow> byte list" where
  "memmove_front xs src n = take n (drop src xs) @ drop n xs"

text \<open>
  What an engine that works in place leaves of the bytes it was handed: it
  overwrites a prefix and never writes past their end.
\<close>

definition in_place :: "byte list \<Rightarrow> byte list \<Rightarrow> byte list" where
  "in_place presented written =
     take (length presented) (written @ drop (length written) presented)"

subsection \<open>SSL_SendRaw and SSL_RecvRaw\<close>

text \<open>
  \<^verbatim>\<open>SSL_SendRaw\<close> (lines 107 to 120). \<open>data\<close> is the \<^verbatim>\<open>count\<close> bytes at \<^verbatim>\<open>data\<close>. A
  transport that reports more bytes than it was offered moves \<^verbatim>\<open>data\<close> past the
  end and wraps \<^verbatim>\<open>count\<close>: \<open>Undefined\<close>.
\<close>

function SSL_SendRaw :: "env \<Rightarrow> trace \<Rightarrow> cc_socket \<Rightarrow> byte list \<Rightarrow> (cc_result \<times> trace) exec" where
  "SSL_SendRaw E tr s data =
     (if data = [] then Return (SEC_E_OK, tr)
      else
        (case Socket_Write E tr s data of
          (res, sent) \<Rightarrow>
            (let tr' = tr @ [EvSocketWrite s data res sent] in
             if res \<noteq> SEC_E_OK then Return (res, tr')
             else if sent = 0 then Return (ERR_END_OF_STREAM, tr')
             else if length data < sent then Undefined
             else SSL_SendRaw E tr' s (drop sent data))))"
  by pat_completeness auto
termination
  by (relation "measure (\<lambda>(E, tr, s, data). length data)") auto

text \<open>
  \<^verbatim>\<open>SSL_RecvRaw\<close> (lines 122 to 137). The transport stores at most the number of
  bytes it was asked for, at \<^verbatim>\<open>incoming + bufferLen\<close>; a fill length outside the
  array, or a transport that stores more, is \<open>Undefined\<close>.
\<close>

definition SSL_RecvRaw :: "env \<Rightarrow> SSLContext \<Rightarrow> trace \<Rightarrow> (cc_result \<times> SSLContext \<times> trace) exec" where
  "SSL_RecvRaw E ctx tr =
     (if bufferLen ctx = int TLS_MAX_PACKET_SIZE then Return (ERR_INVALID_ARGUMENT, ctx, tr)
      else if bufferLen ctx < 0 \<or> int TLS_MAX_PACKET_SIZE < bufferLen ctx then Undefined
      else
        (let room = TLS_MAX_PACKET_SIZE - nat (bufferLen ctx) in
         case Socket_Read E tr (socket ctx) room of
           (res, bytes) \<Rightarrow>
             (let tr' = tr @ [EvSocketRead (socket ctx) room res bytes];
                  ctx' = ctx\<lparr>incoming := store_bytes (incoming ctx) (nat (bufferLen ctx)) bytes\<rparr>
              in
              if room < length bytes then Undefined
              else if res \<noteq> SEC_E_OK then Return (res, ctx', tr')
              else if bytes = [] then Return (ERR_END_OF_STREAM, ctx', tr')
              else Return (SEC_E_OK, ctx'\<lparr>bufferLen := bufferLen ctx + int (length bytes)\<rparr>, tr'))))"

subsection \<open>The handshake\<close>

text \<open>
  \<^verbatim>\<open>SSL_CreateHandle\<close> (lines 96 to 105); \<open>verify\<close> is the global \<^verbatim>\<open>_verifyCerts\<close>,
  which selects the credential flags.
\<close>

definition SSL_CreateHandle :: "env \<Rightarrow> bool \<Rightarrow> SSLContext \<Rightarrow> trace \<Rightarrow> cc_result \<times> SSLContext \<times> trace" where
  "SSL_CreateHandle E verify ctx tr =
     (case FP_AcquireCredentialsHandleA E tr verify of
        (res, h) \<Rightarrow> (res, ctx\<lparr>handle := h\<rparr>, tr @ [EvAcquireCredentialsHandle verify res h]))"

text \<open>The length-0 token of a \<^verbatim>\<open>NULL\<close> output buffer.\<close>

definition token_bytes :: "byte list option \<Rightarrow> byte list" where
  "token_bytes t = (case t of None \<Rightarrow> [] | Some bs \<Rightarrow> bs)"

text \<open>\<^verbatim>\<open>SSL_Connect\<close> (lines 141 to 166): the ClientHello.\<close>

definition SSL_Connect :: "env \<Rightarrow> SSLContext \<Rightarrow> trace \<Rightarrow> string \<Rightarrow> (cc_result \<times> SSLContext \<times> trace) exec" where
  "SSL_Connect E ctx tr hostname =
     (let call = \<lparr>phCredential = handle ctx, phContext = None, pszTargetName = Some hostname,
                    fContextReq = flags ctx, pInput = None\<rparr>;
          r = FP_InitializeSecurityContextA E tr call;
          tr1 = tr @ [EvInitializeSecurityContext call r];
          ctx1 = ctx\<lparr>context_h := isc_context r\<rparr>
      in
      if isc_sec r \<noteq> SEC_I_CONTINUE_NEEDED then Return (isc_sec r, ctx1, tr1)
      else
        (case isc_token r of
           None \<Rightarrow> Return (SEC_E_OK, ctx1, tr1)
         | Some bs \<Rightarrow>
             (case SSL_SendRaw E tr1 (socket ctx1) bs of
                Return (res, tr2) \<Rightarrow> Return (res, ctx1, tr2 @ [EvFreeContextBuffer])
              | Undefined \<Rightarrow> Undefined
              | OutOfFuel \<Rightarrow> OutOfFuel)))"

text \<open>
  Lines 207 to 216 of \<^verbatim>\<open>SSL_Negotiate\<close>: what the engine did not process is moved
  to the front. \<^verbatim>\<open>memmove\<close> reads \<^verbatim>\<open>leftover_len\<close> bytes at
  \<^verbatim>\<open>incoming + (bufferLen - leftover_len)\<close>, which lies in the array only when
  \<^verbatim>\<open>leftover_len\<close> is at most \<^verbatim>\<open>bufferLen\<close>.
\<close>

definition SSL_Negotiate_consume :: "SSLContext \<Rightarrow> isc_reply \<Rightarrow> SSLContext exec" where
  "SSL_Negotiate_consume ctx r =
     (case isc_extra r of
        Some leftover_len \<Rightarrow>
          if bufferLen ctx < int leftover_len then Undefined
          else Return (ctx\<lparr>incoming := memmove_front (incoming ctx)
                                       (nat (bufferLen ctx) - leftover_len) leftover_len,
                            bufferLen := int leftover_len\<rparr>)
      | None \<Rightarrow>
          if isc_sec r \<noteq> SEC_E_INCOMPLETE_MESSAGE then Return (ctx\<lparr>bufferLen := 0\<rparr>)
          else Return ctx)"

text \<open>
  \<^verbatim>\<open>SSL_Negotiate\<close> (lines 169 to 237). The \<^verbatim>\<open>for (;;)\<close> loop runs as long as the
  engine asks for it, so the model counts iterations: \<open>fuel\<close> bounds them. The
  query of the stream sizes after the loop is written where the loop breaks. The
  engine is handed the first \<^verbatim>\<open>bufferLen\<close> bytes of \<^verbatim>\<open>incoming\<close>; a fill length
  outside the array is \<open>Undefined\<close>.
\<close>

fun SSL_Negotiate :: "env \<Rightarrow> nat \<Rightarrow> SSLContext \<Rightarrow> trace \<Rightarrow> (cc_result \<times> SSLContext \<times> trace) exec" where
  "SSL_Negotiate E 0 ctx tr = OutOfFuel"
| "SSL_Negotiate E (Suc fuel) ctx tr =
     (if bufferLen ctx < 0 \<or> int TLS_MAX_PACKET_SIZE < bufferLen ctx then Undefined
      else
        (let call = \<lparr>phCredential = handle ctx, phContext = Some (context_h ctx),
                       pszTargetName = None, fContextReq = flags ctx,
                       pInput = Some (take (nat (bufferLen ctx)) (incoming ctx))\<rparr>;
             r = FP_InitializeSecurityContextA E tr call;
             tr1 = tr @ [EvInitializeSecurityContext call r]
         in
         case SSL_Negotiate_consume ctx r of
           OutOfFuel \<Rightarrow> OutOfFuel
         | Undefined \<Rightarrow> Undefined
         | Return ctx1 \<Rightarrow>
             if isc_sec r = SEC_E_OK then
               (let sz = FP_QueryContextAttributesA E tr1 (context_h ctx1) in
                Return (SEC_E_OK, ctx1\<lparr>sizes := sz\<rparr>,
                        tr1 @ [EvQueryContextAttributes (context_h ctx1) sz]))
             else if isc_sec r = SEC_I_CONTINUE_NEEDED then
               (case SSL_SendRaw E tr1 (socket ctx1) (token_bytes (isc_token r)) of
                  OutOfFuel \<Rightarrow> OutOfFuel
                | Undefined \<Rightarrow> Undefined
                | Return (res, tr2) \<Rightarrow>
                    if res \<noteq> SEC_E_OK then Return (res, ctx1, tr2 @ [EvFreeContextBuffer])
                    else SSL_Negotiate E fuel ctx1 (tr2 @ [EvFreeContextBuffer]))
             else if isc_sec r \<noteq> SEC_E_INCOMPLETE_MESSAGE then Return (isc_sec r, ctx1, tr1)
             else
               (case SSL_RecvRaw E ctx1 tr1 of
                  OutOfFuel \<Rightarrow> OutOfFuel
                | Undefined \<Rightarrow> Undefined
                | Return (res, ctx2, tr2) \<Rightarrow>
                    if res \<noteq> SEC_E_OK then Return (res, ctx2, tr2)
                    else SSL_Negotiate E fuel ctx2 tr2)))"

text \<open>
  The globals \<^verbatim>\<open>_InitSecurityInterfaceA\<close> (set by \<^verbatim>\<open>SSLBackend_Init\<close>),
  \<^verbatim>\<open>FP_InitializeSecurityContextA\<close> (set with the rest of the table by
  \<^verbatim>\<open>SSL_LoadSecurityFunctions\<close>) and \<^verbatim>\<open>_verifyCerts\<close>; of the two pointers only
  whether they are \<^verbatim>\<open>NULL\<close>.
\<close>

record globals =
  InitSecurityInterfaceA_loaded :: bool
  FP_loaded :: bool
  verifyCerts :: bool

text \<open>The structure as \<^verbatim>\<open>Mem_TryAllocCleared\<close> returns it: all bytes zero.\<close>

definition cleared_SSLContext :: SSLContext where
  "cleared_SSLContext =
     \<lparr>socket = 0, handle = 0, context_h = 0,
      sizes = \<lparr>cbHeader = 0, cbTrailer = 0, cbMaximumMessage = 0\<rparr>,
      flags = {}, bufferLen = 0, leftover = 0, decryptedSize = 0, decryptedData = None,
      incoming = replicate TLS_MAX_PACKET_SIZE 0\<rparr>"

text \<open>
  \<^verbatim>\<open>SSL_Init\<close> (lines 258 to 285). The second component of the result is
  \<^verbatim>\<open>*out_ctx\<close>: the session, once it is allocated, also when a later step fails.
\<close>

definition SSL_Init :: "env \<Rightarrow> nat \<Rightarrow> globals \<Rightarrow> trace \<Rightarrow> cc_socket \<Rightarrow> string \<Rightarrow> (cc_result \<times> SSLContext option \<times> globals \<times> trace) exec" where
  "SSL_Init E fuel G tr s host =
     (if \<not> InitSecurityInterfaceA_loaded G then Return (HTTP_ERR_NO_SSL, None, G, tr)
      else
        (let table = (if FP_loaded G then True else InitSecurityInterfaceA E tr);
             tr0 = (if FP_loaded G then tr else tr @ [EvInitSecurityInterface table])
         in
         if \<not> table then Return (ERR_NOT_SUPPORTED, None, G, tr0)
         else
           (let G1 = G\<lparr>FP_loaded := True\<rparr>;
                got = Mem_TryAllocCleared E tr0;
                tr1 = tr0 @ [EvMemTryAllocCleared got]
            in
            if \<not> got then Return (ERR_OUT_OF_MEMORY, None, G1, tr1)
            else
              (let ctx0 = cleared_SSLContext
                     \<lparr>flags := {ISC_REQ_REPLAY_DETECT, ISC_REQ_SEQUENCE_DETECT,
                                ISC_REQ_USE_SUPPLIED_CREDS, ISC_REQ_CONFIDENTIALITY,
                                ISC_REQ_ALLOCATE_MEMORY, ISC_REQ_STREAM}
                               \<union> (if verifyCerts G1 then {} else {ISC_REQ_MANUAL_CRED_VALIDATION}),
                      socket := s\<rparr>
               in
               case SSL_CreateHandle E (verifyCerts G1) ctx0 tr1 of
                 (res1, ctx1, tr2) \<Rightarrow>
                   if res1 \<noteq> SEC_E_OK then Return (res1, Some ctx1, G1, tr2)
                   else
                     (case SSL_Connect E ctx1 tr2 host of
                        OutOfFuel \<Rightarrow> OutOfFuel
                      | Undefined \<Rightarrow> Undefined
                      | Return (res2, ctx2, tr3) \<Rightarrow>
                          if res2 \<noteq> SEC_E_OK then Return (res2, Some ctx2, G1, tr3)
                          else
                            (case SSL_Negotiate E fuel ctx2 tr3 of
                               OutOfFuel \<Rightarrow> OutOfFuel
                             | Undefined \<Rightarrow> Undefined
                             | Return (res3, ctx3, tr4) \<Rightarrow> Return (res3, Some ctx3, G1, tr4)))))))"

subsection \<open>Reading\<close>

text \<open>
  \<^verbatim>\<open>Mem_Copy(data, ctx->decryptedData, len)\<close>: the \<open>len\<close> bytes at the plaintext
  window, when they lie in \<^verbatim>\<open>incoming\<close>.
\<close>

definition read_window :: "SSLContext \<Rightarrow> nat \<Rightarrow> byte list option" where
  "read_window ctx len =
     (case decryptedData ctx of
        None \<Rightarrow> if len = 0 then Some [] else None
      | Some off \<Rightarrow>
          if off + len \<le> TLS_MAX_PACKET_SIZE then Some (take len (drop off (incoming ctx)))
          else None)"

text \<open>
  The conversions between \<^verbatim>\<open>int\<close> and the unsigned 32-bit types (\<^verbatim>\<open>cc_uint32\<close>,
  and \<^verbatim>\<open>unsigned long\<close> on this platform), for the values of those types: a negative
  \<^verbatim>\<open>int\<close> becomes the number 2^32 above it, an unsigned number from 2^31 on becomes
  the \<^verbatim>\<open>int\<close> 2^32 below it.
\<close>

definition to_uint32 :: "int \<Rightarrow> nat" where
  "to_uint32 i = (if i < 0 then nat (i + 2 ^ 32) else nat i)"

definition to_int32 :: "nat \<Rightarrow> int" where
  "to_int32 n = (if n < 2 ^ 31 then int n else int n - 2 ^ 32)"

text \<open>
  \<^verbatim>\<open>SSL_ReadDecrypted\<close> (lines 288 to 309); the last component of the result is what
  was copied to \<^verbatim>\<open>data\<close>, its length is \<^verbatim>\<open>*read\<close>. The macro \<^verbatim>\<open>min\<close> compares
  \<^verbatim>\<open>count\<close> with \<^verbatim>\<open>decryptedSize\<close> as unsigned numbers, and the result is stored in
  the \<^verbatim>\<open>int\<close> \<^verbatim>\<open>len\<close>; \<^verbatim>\<open>Mem_Copy\<close> and \<^verbatim>\<open>*read\<close> take it as an unsigned number
  again. \<^verbatim>\<open>memmove\<close> reads \<^verbatim>\<open>leftover\<close> bytes at \<^verbatim>\<open>incoming + (bufferLen - leftover)\<close>;
  \<^verbatim>\<open>decryptedSize -= len\<close> must not leave the range of \<^verbatim>\<open>int\<close>.
\<close>

definition SSL_ReadDecrypted :: "SSLContext \<Rightarrow> nat \<Rightarrow> (cc_result \<times> SSLContext \<times> byte list) exec" where
  "SSL_ReadDecrypted ctx count =
     (let len_u = min count (to_uint32 (decryptedSize ctx));
          len = to_int32 len_u
      in
      case read_window ctx len_u of
        None \<Rightarrow> Undefined
      | Some out \<Rightarrow>
          if len = decryptedSize ctx then
            (if leftover ctx < 0 \<or> bufferLen ctx < leftover ctx
                \<or> int TLS_MAX_PACKET_SIZE < bufferLen ctx then Undefined
             else Return (SEC_E_OK,
                     ctx\<lparr>incoming := memmove_front (incoming ctx)
                                      (nat (bufferLen ctx - leftover ctx)) (nat (leftover ctx)),
                         bufferLen := leftover ctx,
                         leftover := 0,
                         decryptedData := None,
                         decryptedSize := 0\<rparr>,
                     out))
          else if decryptedSize ctx - len < - (2 ^ 31) then Undefined
          else Return (SEC_E_OK,
                  ctx\<lparr>decryptedData := map_option (\<lambda>p. p + len_u) (decryptedData ctx),
                      decryptedSize := decryptedSize ctx - len\<rparr>,
                  out))"

text \<open>
  Lines 324 to 353 of \<^verbatim>\<open>SSL_Read\<close>: if there is ciphertext, try to decrypt it.
  \<open>Inl\<close> is a \<^verbatim>\<open>return\<close> inside the block, \<open>Inr\<close> falls through to the receive.
  The engine is handed the first \<^verbatim>\<open>bufferLen\<close> bytes of \<^verbatim>\<open>incoming\<close> (a fill length
  outside the array is \<open>Undefined\<close>) and works on them in place. The lengths it
  reports are \<^verbatim>\<open>unsigned long\<close> and are stored in \<^verbatim>\<open>int\<close> fields.
\<close>

definition SSL_Read_decrypt :: "env \<Rightarrow> SSLContext \<Rightarrow> trace \<Rightarrow> nat \<Rightarrow> (cc_result \<times> SSLContext \<times> trace \<times> byte list) exec + SSLContext \<times> trace" where
  "SSL_Read_decrypt E ctx tr count =
     (if bufferLen ctx = 0 then Inr (ctx, tr)
      else if bufferLen ctx < 0 \<or> int TLS_MAX_PACKET_SIZE < bufferLen ctx then Inl Undefined
      else
        (let presented = take (nat (bufferLen ctx)) (incoming ctx);
             r = FP_DecryptMessage E tr (context_h ctx) presented;
             tr1 = tr @ [EvDecryptMessage (context_h ctx) presented r];
             ctx1 = ctx\<lparr>incoming := store_bytes (incoming ctx) 0 (in_place presented (dec_written r))\<rparr>
         in
         if dec_sec r = SEC_E_OK then
           (case SSL_ReadDecrypted
                   (ctx1\<lparr>decryptedData := Some (fst (dec_data r)),
                         decryptedSize := to_int32 (snd (dec_data r)),
                         leftover := (case dec_extra r of Some n \<Rightarrow> to_int32 n | None \<Rightarrow> 0)\<rparr>)
                   count of
              OutOfFuel \<Rightarrow> Inl OutOfFuel
            | Undefined \<Rightarrow> Inl Undefined
            | Return (res, ctx2, out) \<Rightarrow> Inl (Return (res, ctx2, tr1, out)))
         else if dec_sec r \<noteq> SEC_E_INCOMPLETE_MESSAGE then Inl (Return (dec_sec r, ctx1, tr1, []))
         else Inr (ctx1, tr1)))"

text \<open>
  The \<^verbatim>\<open>for (;;)\<close> loop of \<^verbatim>\<open>SSL_Read\<close> (lines 321 to 357). Every pass that does
  not return adds at least one byte to the buffer, and a full buffer ends it.
\<close>

function SSL_Read_loop :: "env \<Rightarrow> SSLContext \<Rightarrow> trace \<Rightarrow> nat \<Rightarrow> (cc_result \<times> SSLContext \<times> trace \<times> byte list) exec" where
  "SSL_Read_loop E ctx tr count =
     (case SSL_Read_decrypt E ctx tr count of
        Inl result \<Rightarrow> result
      | Inr (ctx1, tr1) \<Rightarrow>
          (case SSL_RecvRaw E ctx1 tr1 of
             OutOfFuel \<Rightarrow> OutOfFuel
           | Undefined \<Rightarrow> Undefined
           | Return (res, ctx2, tr2) \<Rightarrow>
               if res \<noteq> SEC_E_OK then Return (res, ctx2, tr2, [])
               else SSL_Read_loop E ctx2 tr2 count))"
  by pat_completeness auto
termination
proof (relation "measure (\<lambda>(E, ctx, tr, count). nat (int TLS_MAX_PACKET_SIZE - bufferLen ctx))")
  show "wf (measure (\<lambda>(E, ctx, tr, count). nat (int TLS_MAX_PACKET_SIZE - bufferLen ctx)))"
    by simp
next
  fix E ctx tr count x2 ctx1 tr1 x3 res rest ctx2 tr2
  assume d: "SSL_Read_decrypt E ctx tr count = Inr x2" "(ctx1, tr1) = x2"
    and r: "SSL_RecvRaw E ctx1 tr1 = Return x3" "(res, rest) = x3" "(ctx2, tr2) = rest"
    and ok: "\<not> res \<noteq> SEC_E_OK"
  from d have "bufferLen ctx1 = bufferLen ctx"
    by (auto simp: SSL_Read_decrypt_def Let_def split: if_splits exec.splits)
  moreover from r ok have "0 \<le> bufferLen ctx1 \<and> bufferLen ctx1 < bufferLen ctx2
      \<and> bufferLen ctx2 \<le> int TLS_MAX_PACKET_SIZE"
    by (auto simp: SSL_RecvRaw_def Let_def split: if_splits prod.splits)
  ultimately show "((E, ctx2, tr2, count), (E, ctx, tr, count))
      \<in> measure (\<lambda>(E, ctx, tr, count). nat (int TLS_MAX_PACKET_SIZE - bufferLen ctx))"
    by simp
qed

text \<open>\<^verbatim>\<open>SSL_Read\<close> (lines 311 to 359).\<close>

definition SSL_Read :: "env \<Rightarrow> SSLContext \<Rightarrow> trace \<Rightarrow> nat \<Rightarrow> (cc_result \<times> SSLContext \<times> trace \<times> byte list) exec" where
  "SSL_Read E ctx tr count =
     (if decryptedData ctx \<noteq> None then
        (case SSL_ReadDecrypted ctx count of
           OutOfFuel \<Rightarrow> OutOfFuel
         | Undefined \<Rightarrow> Undefined
         | Return (res, ctx', out) \<Rightarrow> Return (res, ctx', tr, out))
      else SSL_Read_loop E ctx tr count)"

subsection \<open>Writing\<close>

text \<open>
  \<^verbatim>\<open>SSL_WriteChunk\<close> (lines 361 to 392); \<open>data\<close> is the \<^verbatim>\<open>count\<close> bytes at \<^verbatim>\<open>data\<close>.
  The three buffers lie one after the other in a local array of
  \<^verbatim>\<open>TLS_MAX_PACKET_SIZE\<close> bytes; when they do not fit, or when the lengths the engine
  reports cover bytes it did not write, the run is \<open>Undefined\<close>.
\<close>

definition SSL_WriteChunk :: "env \<Rightarrow> SSLContext \<Rightarrow> trace \<Rightarrow> byte list \<Rightarrow> (cc_result \<times> SSLContext \<times> trace) exec" where
  "SSL_WriteChunk E s tr data =
     (let region = cbHeader (sizes s) + length data + cbTrailer (sizes s) in
      if TLS_MAX_PACKET_SIZE < region then Undefined
      else
        (let r = FP_EncryptMessage E tr (context_h s) (cbHeader (sizes s)) data (cbTrailer (sizes s));
             tr1 = tr @ [EvEncryptMessage (context_h s) (cbHeader (sizes s)) data (cbTrailer (sizes s)) r]
         in
         if enc_sec r \<noteq> SEC_E_OK then Return (enc_sec r, s, tr1)
         else
           (let buffer = take region (enc_written r);
                total = fst (enc_cb r) + fst (snd (enc_cb r)) + snd (snd (enc_cb r))
            in
            if length buffer < total then Undefined
            else
              (case SSL_SendRaw E tr1 (socket s) (take total buffer) of
                 OutOfFuel \<Rightarrow> OutOfFuel
               | Undefined \<Rightarrow> Undefined
               | Return (res, tr2) \<Rightarrow> Return (res, s, tr2)))))"

text \<open>
  \<^verbatim>\<open>SSL_Write\<close> (lines 394 to 410). With \<^verbatim>\<open>cbMaximumMessage = 0\<close> the loop makes no
  progress, so its iterations are counted by \<open>fuel\<close>. The last component of the
  result is \<^verbatim>\<open>*wrote\<close>.
\<close>

fun SSL_Write_loop :: "env \<Rightarrow> nat \<Rightarrow> SSLContext \<Rightarrow> trace \<Rightarrow> byte list \<Rightarrow> nat \<Rightarrow> (cc_result \<times> SSLContext \<times> trace \<times> nat) exec" where
  "SSL_Write_loop E fuel s tr [] wrote = Return (SEC_E_OK, s, tr, wrote)"
| "SSL_Write_loop E 0 s tr (b # bs) wrote = OutOfFuel"
| "SSL_Write_loop E (Suc fuel) s tr (b # bs) wrote =
     (let len = min (length (b # bs)) (cbMaximumMessage (sizes s)) in
      case SSL_WriteChunk E s tr (take len (b # bs)) of
        OutOfFuel \<Rightarrow> OutOfFuel
      | Undefined \<Rightarrow> Undefined
      | Return (res, s', tr') \<Rightarrow>
          if res \<noteq> SEC_E_OK then Return (res, s', tr', wrote)
          else SSL_Write_loop E fuel s' tr' (drop len (b # bs)) (wrote + len))"

definition SSL_Write :: "env \<Rightarrow> nat \<Rightarrow> SSLContext \<Rightarrow> trace \<Rightarrow> byte list \<Rightarrow> (cc_result \<times> SSLContext \<times> trace \<times> nat) exec" where
  "SSL_Write E fuel s tr data = SSL_Write_loop E fuel s tr data 0"

subsection \<open>Teardown\<close>

text \<open>
  \<^verbatim>\<open>SSL_Free\<close> (lines 412 to 419) takes the pointer \<^verbatim>\<open>Mem_TryAllocCleared\<close> returned.
  The heap maps the address of every live session to its contents; \<^verbatim>\<open>Mem_Free\<close>
  removes the address, and reading the fields of a session that is not live is
  \<open>Undefined\<close>.
\<close>

type_synonym heap = "nat \<Rightarrow> SSLContext option"

definition SSL_Free :: "heap \<Rightarrow> trace \<Rightarrow> nat \<Rightarrow> (cc_result \<times> heap \<times> trace) exec" where
  "SSL_Free h tr p =
     (case h p of
        None \<Rightarrow> Undefined
      | Some ctx \<Rightarrow>
          Return (SEC_E_OK, h(p := None),
                  tr @ [EvDeleteSecurityContext (context_h ctx),
                        EvFreeCredentialsHandle (handle ctx),
                        EvMemFree p]))"

subsection \<open>Reading the trace\<close>

text \<open>The bytes the transport accepted, in the order it accepted them.\<close>

fun sent_bytes :: "trace \<Rightarrow> byte list" where
  "sent_bytes [] = []"
| "sent_bytes (EvSocketWrite s data res n # es) =
     (if res = SEC_E_OK then take n data else []) @ sent_bytes es"
| "sent_bytes (e # es) = sent_bytes es"

text \<open>The plaintexts handed to the engine for encryption, in order.\<close>

fun encrypted_chunks :: "trace \<Rightarrow> byte list list" where
  "encrypted_chunks [] = []"
| "encrypted_chunks (EvEncryptMessage h ch data ct r # es) = data # encrypted_chunks es"
| "encrypted_chunks (e # es) = encrypted_chunks es"

text \<open>
  The record a successful encryption leaves in the local array of
  \<^verbatim>\<open>SSL_WriteChunk\<close>: header, ciphertext and trailer, \<^verbatim>\<open>total\<close> bytes from its start.
\<close>

definition record_bytes :: "nat \<Rightarrow> nat \<Rightarrow> nat \<Rightarrow> enc_reply \<Rightarrow> byte list" where
  "record_bytes ch n ct r =
     take (fst (enc_cb r) + fst (snd (enc_cb r)) + snd (snd (enc_cb r)))
       (take (ch + n + ct) (enc_written r))"

fun wire_records :: "trace \<Rightarrow> byte list list" where
  "wire_records [] = []"
| "wire_records (EvEncryptMessage h ch data ct r # es) =
     (if enc_sec r = SEC_E_OK then [record_bytes ch (length data) ct r] else []) @ wire_records es"
| "wire_records (e # es) = wire_records es"

text \<open>A transport read that succeeded with no bytes.\<close>

fun zero_read :: "event \<Rightarrow> bool" where
  "zero_read (EvSocketRead s n res bs) = (res = SEC_E_OK \<and> bs = [])"
| "zero_read e = False"

text \<open>
  A decryption that succeeded with a record that has no content: the length the
  code stores in \<^verbatim>\<open>decryptedSize\<close> is 0.
\<close>

fun empty_record :: "event \<Rightarrow> bool" where
  "empty_record (EvDecryptMessage h bs r) =
     (dec_sec r = SEC_E_OK \<and> to_int32 (snd (dec_data r)) = 0)"
| "empty_record e = False"

text \<open>
  What happened to one chunk: the header length, the plaintext and the trailer
  length handed to the engine, the engine's answer, and the bytes the transport
  accepted after that encryption and before the next one.
\<close>

fun is_encrypt :: "event \<Rightarrow> bool" where
  "is_encrypt (EvEncryptMessage h ch data ct r) = True"
| "is_encrypt e = False"

record chunk_send =
  cs_header :: nat
  cs_plain :: "byte list"
  cs_trailer :: nat
  cs_reply :: enc_reply
  cs_sent :: "byte list"

fun chunk_sends :: "trace \<Rightarrow> chunk_send list" where
  "chunk_sends [] = []"
| "chunk_sends (EvEncryptMessage h ch data ct r # es) =
     \<lparr>cs_header = ch, cs_plain = data, cs_trailer = ct, cs_reply = r,
      cs_sent = sent_bytes (takeWhile (\<lambda>e. \<not> is_encrypt e) es)\<rparr> # chunk_sends es"
| "chunk_sends (e # es) = chunk_sends es"

text \<open>
  A chunk of the session \<open>s\<close> that went out as one record: it is not empty and not
  longer than \<^verbatim>\<open>sizes.cbMaximumMessage\<close>, it was laid out with the negotiated header
  and trailer lengths, the engine encrypted it, and what the transport then accepted
  is the engine's record, whose length is the sum of the three buffer lengths the
  engine reported.
\<close>

definition sent_as_record :: "SSLContext \<Rightarrow> chunk_send \<Rightarrow> bool" where
  "sent_as_record s c =
     (cs_plain c \<noteq> [] \<and> length (cs_plain c) \<le> cbMaximumMessage (sizes s)
      \<and> cs_header c = cbHeader (sizes s) \<and> cs_trailer c = cbTrailer (sizes s)
      \<and> enc_sec (cs_reply c) = SEC_E_OK
      \<and> cs_sent c = record_bytes (cs_header c) (length (cs_plain c)) (cs_trailer c) (cs_reply c)
      \<and> length (cs_sent c) =
            fst (enc_cb (cs_reply c)) + fst (snd (enc_cb (cs_reply c)))
              + snd (snd (enc_cb (cs_reply c))))"

subsection \<open>Invariant and reachable sessions\<close>

definition buffer_ok :: "SSLContext \<Rightarrow> bool" where
  "buffer_ok ctx =
     (0 \<le> bufferLen ctx \<and> bufferLen ctx \<le> int TLS_MAX_PACKET_SIZE
      \<and> length (incoming ctx) = TLS_MAX_PACKET_SIZE)"

text \<open>A pending plaintext window holds a size that is not 0 and is a value of \<^verbatim>\<open>int\<close>.\<close>

definition window_ok :: "SSLContext \<Rightarrow> bool" where
  "window_ok ctx =
     (decryptedData ctx = None \<or> (decryptedSize ctx \<noteq> 0 \<and> - (2 ^ 31) \<le> decryptedSize ctx))"

text \<open>
  The sessions \<^verbatim>\<open>SSL_Init\<close> hands out (also when it fails after the allocation), and
  what \<^verbatim>\<open>SSL_Negotiate\<close>, \<^verbatim>\<open>SSL_Read\<close> and \<^verbatim>\<open>SSL_Write\<close> make of them, whatever
  the environment answers and whatever the result code is.
\<close>

inductive reachable :: "env \<Rightarrow> SSLContext \<Rightarrow> bool" for E :: env where
  reach_Init:
    "SSL_Init E fuel G tr s host = Return (res, Some ctx, G', tr') \<Longrightarrow> reachable E ctx"
| reach_Negotiate:
    "reachable E ctx \<Longrightarrow> SSL_Negotiate E fuel ctx tr = Return (res, ctx', tr') \<Longrightarrow>
       reachable E ctx'"
| reach_Read:
    "reachable E ctx \<Longrightarrow> SSL_Read E ctx tr count = Return (res, ctx', tr', out) \<Longrightarrow>
       reachable E ctx'"
| reach_Write:
    "reachable E ctx \<Longrightarrow> SSL_Write E fuel ctx tr data = Return (res, ctx', tr', wrote) \<Longrightarrow>
       reachable E ctx'"

subsection \<open>Example environments and sessions\<close>

text \<open>
  A transport that accepts everything it is offered and has nothing to deliver, and
  an engine that completes the handshake at once, frames a plaintext between a
  one-byte header and a one-byte trailer, and finds every input incomplete.
\<close>

definition quiet_env :: env where
  "quiet_env =
     \<lparr>Socket_Write = (\<lambda>tr s data. (SEC_E_OK, length data)),
      Socket_Read = (\<lambda>tr s n. (SEC_E_OK, [])),
      FP_InitializeSecurityContextA =
        (\<lambda>tr c. \<lparr>isc_sec = SEC_E_OK, isc_context = 1, isc_extra = None, isc_token = None\<rparr>),
      FP_QueryContextAttributesA =
        (\<lambda>tr h. \<lparr>cbHeader = 1, cbTrailer = 1, cbMaximumMessage = 2\<rparr>),
      FP_AcquireCredentialsHandleA = (\<lambda>tr v. (SEC_E_OK, 1)),
      FP_DecryptMessage =
        (\<lambda>tr h bs. \<lparr>dec_sec = SEC_E_INCOMPLETE_MESSAGE, dec_written = [],
                     dec_data = (0, 0), dec_extra = None\<rparr>),
      FP_EncryptMessage =
        (\<lambda>tr h ch bs ct. \<lparr>enc_sec = SEC_E_OK,
                           enc_written = replicate ch 22 @ bs @ replicate ct 0,
                           enc_cb = (ch, length bs, ct)\<rparr>),
      InitSecurityInterfaceA = (\<lambda>tr. True),
      Mem_TryAllocCleared = (\<lambda>tr. True)\<rparr>"

text \<open>A transport that takes two bytes of the first write and none afterwards.\<close>

definition stalling_env :: env where
  "stalling_env =
     quiet_env\<lparr>Socket_Write := (\<lambda>tr s data. (SEC_E_OK, if tr = [] then 2 else 0))\<rparr>"

text \<open>A transport that delivers up to three bytes on every read.\<close>

definition delivering_env :: env where
  "delivering_env =
     quiet_env\<lparr>Socket_Read := (\<lambda>tr s n. (SEC_E_OK, take n [23, 33, 1]))\<rparr>"

text \<open>An engine whose handshake step always asks for more input.\<close>

definition starving_env :: env where
  "starving_env =
     quiet_env\<lparr>FP_InitializeSecurityContextA :=
        (\<lambda>tr c. \<lparr>isc_sec = SEC_E_INCOMPLETE_MESSAGE, isc_context = 1,
                  isc_extra = None, isc_token = None\<rparr>)\<rparr>"

text \<open>
  An engine that decrypts every input as a record of one header byte and one
  content byte, leaving the bytes as they are.
\<close>

definition decrypting_env :: env where
  "decrypting_env =
     quiet_env\<lparr>FP_DecryptMessage :=
        (\<lambda>tr h bs. \<lparr>dec_sec = SEC_E_OK, dec_written = bs, dec_data = (1, 1),
                     dec_extra = None\<rparr>)\<rparr>"

text \<open>
  The transport of \<open>delivering_env\<close> with the engine of \<open>decrypting_env\<close>, and the
  same with an engine that reports every record as decrypted without content.
\<close>

definition serving_env :: env where
  "serving_env =
     decrypting_env\<lparr>Socket_Read := (\<lambda>tr s n. (SEC_E_OK, take n [23, 33, 1]))\<rparr>"

definition empty_record_env :: env where
  "empty_record_env =
     serving_env\<lparr>FP_DecryptMessage :=
        (\<lambda>tr h bs. \<lparr>dec_sec = SEC_E_OK, dec_written = bs, dec_data = (1, 0),
                     dec_extra = None\<rparr>)\<rparr>"

text \<open>
  A session holding a decrypted record (header, two content bytes, trailer) with
  its window on the content, followed by three bytes of a second record.
\<close>

definition two_records_ctx :: SSLContext where
  "two_records_ctx =
     cleared_SSLContext
       \<lparr>incoming := [22, 104, 105, 0, 23, 33, 1] @ replicate (TLS_MAX_PACKET_SIZE - 7) 0,
        bufferLen := 7, leftover := 3, decryptedSize := 2, decryptedData := Some 1\<rparr>"

text \<open>A session with a pending window of two bytes and nothing after the record.\<close>

definition pending_window_ctx :: SSLContext where
  "pending_window_ctx =
     cleared_SSLContext
       \<lparr>incoming := [22, 104, 105, 0] @ replicate (TLS_MAX_PACKET_SIZE - 4) 0,
        bufferLen := 4, decryptedSize := 2, decryptedData := Some 1\<rparr>"

text \<open>A session whose buffer is full.\<close>

definition full_ctx :: SSLContext where
  "full_ctx = cleared_SSLContext\<lparr>bufferLen := int TLS_MAX_PACKET_SIZE\<rparr>"

text \<open>
  The session \<^verbatim>\<open>SSL_Init\<close> establishes on socket 3 in \<open>quiet_env\<close>, with
  certificate verification on.
\<close>

definition established_ctx :: SSLContext where
  "established_ctx =
     cleared_SSLContext
       \<lparr>socket := 3, handle := 1, context_h := 1,
        sizes := \<lparr>cbHeader = 1, cbTrailer = 1, cbMaximumMessage = 2\<rparr>,
        flags := {ISC_REQ_REPLAY_DETECT, ISC_REQ_SEQUENCE_DETECT, ISC_REQ_USE_SUPPLIED_CREDS,
                  ISC_REQ_CONFIDENTIALITY, ISC_REQ_ALLOCATE_MEMORY, ISC_REQ_STREAM}\<rparr>"

text \<open>A heap with one live session, at address 1.\<close>

definition one_session_heap :: heap where
  "one_session_heap = (\<lambda>p. if p = 1 then Some established_ctx else None)"

declare SSL_SendRaw.simps [simp del]
declare SSL_Read_loop.simps [simp del]

section \<open>Properties\<close>

subsection \<open>Memory and trace lemmas\<close>

lemma length_store_bytes:
  "off + length bs \<le> length xs \<Longrightarrow> length (store_bytes xs off bs) = length xs"
  by (simp add: store_bytes_def)

lemma store_bytes_nothing: "store_bytes xs off [] = xs"
  by (simp add: store_bytes_def)

lemma length_in_place: "length (in_place p w) = length p"
  by (simp add: in_place_def)

lemma length_memmove_front:
  "src + n \<le> length xs \<Longrightarrow> length (memmove_front xs src n) = length xs"
  by (simp add: memmove_front_def)

lemma take_memmove_front:
  "src + n \<le> length xs \<Longrightarrow> take n (memmove_front xs src n) = take n (drop src xs)"
  by (simp add: memmove_front_def)

lemma sent_bytes_append: "sent_bytes (xs @ ys) = sent_bytes xs @ sent_bytes ys"
  by (induction xs rule: sent_bytes.induct) auto

lemma encrypted_chunks_append:
  "encrypted_chunks (xs @ ys) = encrypted_chunks xs @ encrypted_chunks ys"
  by (induction xs rule: encrypted_chunks.induct) auto

lemma wire_records_append:
  "wire_records (xs @ ys) = wire_records xs @ wire_records ys"
  by (induction xs rule: wire_records.induct) auto

subsection \<open>SSL_SendRaw\<close>

lemma SSL_SendRaw_empty: "SSL_SendRaw E tr s [] = Return (SEC_E_OK, tr)"
  by (simp add: SSL_SendRaw.simps)

lemma SSL_SendRaw_step:
  assumes "data \<noteq> []" and "Socket_Write E tr s data = (res, sent)"
  shows "SSL_SendRaw E tr s data =
           (if res \<noteq> SEC_E_OK then Return (res, tr @ [EvSocketWrite s data res sent])
            else if sent = 0 then Return (ERR_END_OF_STREAM, tr @ [EvSocketWrite s data res sent])
            else if length data < sent then Undefined
            else SSL_SendRaw E (tr @ [EvSocketWrite s data res sent]) s (drop sent data))"
  using assms by (subst SSL_SendRaw.simps) (simp add: Let_def)

text \<open>
  Whatever \<^verbatim>\<open>SSL_SendRaw\<close> adds to the trace is transport writes; when it returns
  success, the transport accepted exactly the bytes it was given, in order.
\<close>

lemma SSL_SendRaw_only_writes:
  "SSL_SendRaw E tr s data = Return (res, tr') \<Longrightarrow>
     \<exists>new. tr' = tr @ new \<and> (res = SEC_E_OK \<longrightarrow> sent_bytes new = data)
        \<and> encrypted_chunks new = [] \<and> wire_records new = []"
proof (induction E tr s data rule: SSL_SendRaw.induct)
  case (1 E tr s data)
  show ?case
  proof (cases "data = []")
    case True
    with "1.prems" show ?thesis by (simp add: SSL_SendRaw_empty)
  next
    case False
    obtain r n where w: "Socket_Write E tr s data = (r, n)"
      by (cases "Socket_Write E tr s data")
    note step = SSL_SendRaw_step[OF False w]
    show ?thesis
    proof (cases "r = SEC_E_OK \<and> n \<noteq> 0 \<and> n \<le> length data")
      case True
      with step "1.prems" have rec:
        "SSL_SendRaw E (tr @ [EvSocketWrite s data r n]) s (drop n data) = Return (res, tr')"
        by simp
      from "1.IH"[OF False w[symmetric] refl _ _ _ rec] True
      obtain new where "tr' = (tr @ [EvSocketWrite s data r n]) @ new"
        "res = SEC_E_OK \<longrightarrow> sent_bytes new = drop n data"
        "encrypted_chunks new = []" "wire_records new = []"
        by auto
      then show ?thesis using True
        by (intro exI[of _ "EvSocketWrite s data r n # new"]) auto
    next
      case False
      with step "1.prems" show ?thesis
        by (auto split: if_splits)
    qed
  qed
qed

text \<open>
  C5. While data is pending, a transport write that reports 0 bytes ends
  \<^verbatim>\<open>SSL_SendRaw\<close> with \<^verbatim>\<open>ERR_END_OF_STREAM\<close> after that one write (no retry); a
  write that took some but not more than the pending bytes is followed by the same
  loop on the remaining bytes; and whenever the loop returns success, the transport
  has accepted all the bytes, in order.
\<close>

theorem SSL_SendRaw_zero_and_partial:
  assumes "data \<noteq> []" and "Socket_Write E tr s data = (SEC_E_OK, sent)"
  shows "(sent = 0 \<longrightarrow>
            SSL_SendRaw E tr s data =
              Return (ERR_END_OF_STREAM, tr @ [EvSocketWrite s data SEC_E_OK 0]))
       \<and> (0 < sent \<and> sent \<le> length data \<longrightarrow>
            SSL_SendRaw E tr s data =
              SSL_SendRaw E (tr @ [EvSocketWrite s data SEC_E_OK sent]) s (drop sent data))
       \<and> (\<forall>tr'. SSL_SendRaw E tr s data = Return (SEC_E_OK, tr') \<longrightarrow>
            sent_bytes (drop (length tr) tr') = data)"
proof (intro conjI impI allI)
  assume "sent = 0"
  with SSL_SendRaw_step[OF assms]
  show "SSL_SendRaw E tr s data =
          Return (ERR_END_OF_STREAM, tr @ [EvSocketWrite s data SEC_E_OK 0])"
    by simp
next
  assume "0 < sent \<and> sent \<le> length data"
  with SSL_SendRaw_step[OF assms]
  show "SSL_SendRaw E tr s data =
          SSL_SendRaw E (tr @ [EvSocketWrite s data SEC_E_OK sent]) s (drop sent data)"
    by simp
next
  fix tr'
  assume "SSL_SendRaw E tr s data = Return (SEC_E_OK, tr')"
  from SSL_SendRaw_only_writes[OF this] show "sent_bytes (drop (length tr) tr') = data"
    by auto
qed

theorem SSL_SendRaw_zero_and_partial_witness:
  "SSL_SendRaw stalling_env [] 7 [1, 2, 3] =
     SSL_SendRaw stalling_env [EvSocketWrite 7 [1, 2, 3] SEC_E_OK 2] 7 [3]
   \<and> SSL_SendRaw stalling_env [EvSocketWrite 7 [1, 2, 3] SEC_E_OK 2] 7 [3] =
     Return (ERR_END_OF_STREAM,
             [EvSocketWrite 7 [1, 2, 3] SEC_E_OK 2, EvSocketWrite 7 [3] SEC_E_OK 0])"
proof -
  have a: "Socket_Write stalling_env [] 7 [1, 2, 3] = (SEC_E_OK, 2)"
    by (simp add: stalling_env_def)
  have b: "Socket_Write stalling_env [EvSocketWrite 7 [1, 2, 3] SEC_E_OK 2] 7 [3] = (SEC_E_OK, 0)"
    by (simp add: stalling_env_def)
  from SSL_SendRaw_zero_and_partial[OF _ a] SSL_SendRaw_zero_and_partial[OF _ b]
  show ?thesis by simp
qed

subsection \<open>SSL_Write with nothing to write\<close>

text \<open>
  C9. \<^verbatim>\<open>SSL_Write\<close> with \<^verbatim>\<open>count = 0\<close> returns success with \<^verbatim>\<open>*wrote = 0\<close>; the trace
  is the one it started with (no encryption, no transport write) and the session is
  unchanged, whatever the iteration bound.
\<close>

theorem SSL_Write_nothing:
  "SSL_Write E fuel s tr [] = Return (SEC_E_OK, s, tr, 0)"
  by (simp add: SSL_Write_def)

theorem SSL_Write_nothing_witness:
  "SSL_Write quiet_env 0 established_ctx [] [] = Return (SEC_E_OK, established_ctx, [], 0)"
  by (rule SSL_Write_nothing)

subsection \<open>Serving from the plaintext window\<close>

lemma to_uint32_nonneg: "0 \<le> i \<Longrightarrow> to_uint32 i = nat i"
  by (simp add: to_uint32_def)

lemma to_int32_in_buffer: "n \<le> TLS_MAX_PACKET_SIZE \<Longrightarrow> to_int32 n = int n"
  by (simp add: to_int32_def TLS_MAX_PACKET_SIZE_def)

lemma read_window_fits:
  "read_window ctx n = Some out \<Longrightarrow> n \<le> TLS_MAX_PACKET_SIZE"
  by (auto simp: read_window_def split: option.splits if_splits)

text \<open>
  For a size that is not negative, the unsigned comparison is the minimum of the two
  numbers and no conversion changes a value.
\<close>

lemma SSL_ReadDecrypted_nonneg:
  assumes "0 \<le> decryptedSize ctx"
  shows "SSL_ReadDecrypted ctx count =
     (let len = min (int count) (decryptedSize ctx) in
      case read_window ctx (nat len) of
        None \<Rightarrow> Undefined
      | Some out \<Rightarrow>
          if len = decryptedSize ctx then
            (if leftover ctx < 0 \<or> bufferLen ctx < leftover ctx
                \<or> int TLS_MAX_PACKET_SIZE < bufferLen ctx then Undefined
             else Return (SEC_E_OK,
                     ctx\<lparr>incoming := memmove_front (incoming ctx)
                                      (nat (bufferLen ctx - leftover ctx)) (nat (leftover ctx)),
                         bufferLen := leftover ctx, leftover := 0,
                         decryptedData := None, decryptedSize := 0\<rparr>,
                     out))
          else Return (SEC_E_OK,
                  ctx\<lparr>decryptedData := map_option (\<lambda>p. p + nat len) (decryptedData ctx),
                      decryptedSize := decryptedSize ctx - len\<rparr>,
                  out))"
proof (cases "int count < decryptedSize ctx")
  case True
  with assms have u: "min count (to_uint32 (decryptedSize ctx)) = count"
    "min (int count) (decryptedSize ctx) = int count"
    by (auto simp: to_uint32_nonneg)
  show ?thesis
  proof (cases "read_window ctx count")
    case None
    then show ?thesis
      by (simp add: SSL_ReadDecrypted_def Let_def u)
  next
    case (Some out)
    from read_window_fits[OF Some] have "to_int32 count = int count"
      by (rule to_int32_in_buffer)
    with Some True show ?thesis
      by (simp add: SSL_ReadDecrypted_def Let_def u)
  qed
next
  case False
  with assms have u: "min count (to_uint32 (decryptedSize ctx)) = nat (decryptedSize ctx)"
    "min (int count) (decryptedSize ctx) = decryptedSize ctx"
    by (auto simp: to_uint32_nonneg)
  show ?thesis
  proof (cases "read_window ctx (nat (decryptedSize ctx))")
    case None
    then show ?thesis
      by (simp add: SSL_ReadDecrypted_def Let_def u)
  next
    case (Some out)
    from read_window_fits[OF Some] assms
    have "to_int32 (nat (decryptedSize ctx)) = decryptedSize ctx"
      by (simp add: to_int32_in_buffer)
    with Some show ?thesis
      by (simp add: SSL_ReadDecrypted_def Let_def u)
  qed
qed

lemma SSL_ReadDecrypted_partial:
  assumes "decryptedData ctx = Some off" "int count < decryptedSize ctx"
    and "off + count \<le> TLS_MAX_PACKET_SIZE"
  shows "SSL_ReadDecrypted ctx count =
     Return (SEC_E_OK,
             ctx\<lparr>decryptedData := Some (off + count),
                 decryptedSize := decryptedSize ctx - int count\<rparr>,
             take count (drop off (incoming ctx)))"
  using assms by (simp add: SSL_ReadDecrypted_nonneg read_window_def Let_def min_def)

lemma SSL_ReadDecrypted_drain:
  assumes "decryptedData ctx = Some off" "0 \<le> decryptedSize ctx" "decryptedSize ctx \<le> int count"
    and "off + nat (decryptedSize ctx) \<le> TLS_MAX_PACKET_SIZE"
    and "0 \<le> leftover ctx" "leftover ctx \<le> bufferLen ctx" "bufferLen ctx \<le> int TLS_MAX_PACKET_SIZE"
  shows "SSL_ReadDecrypted ctx count =
     Return (SEC_E_OK,
             ctx\<lparr>incoming := memmove_front (incoming ctx)
                              (nat (bufferLen ctx - leftover ctx)) (nat (leftover ctx)),
                 bufferLen := leftover ctx, leftover := 0,
                 decryptedData := None, decryptedSize := 0\<rparr>,
             take (nat (decryptedSize ctx)) (drop off (incoming ctx)))"
  using assms by (simp add: SSL_ReadDecrypted_nonneg read_window_def Let_def min_def)

text \<open>
  C10. With a plaintext window at offset \<open>off\<close> that holds more than \<^verbatim>\<open>count\<close>
  bytes, \<^verbatim>\<open>SSL_Read\<close> returns success with the first \<^verbatim>\<open>count\<close> bytes of the window,
  moves the window forward by \<^verbatim>\<open>count\<close> and shortens it by \<^verbatim>\<open>count\<close>; every other
  field of the session (the buffer, its fill length, the leftover count) and the
  trace (no transport or engine call) are as before. The bytes served lie in the
  buffer.
\<close>

theorem SSL_Read_partial_drain:
  assumes "decryptedData ctx = Some off" and "int count < decryptedSize ctx"
    and "off + count \<le> TLS_MAX_PACKET_SIZE"
  shows "SSL_Read E ctx tr count =
     Return (SEC_E_OK,
             ctx\<lparr>decryptedData := Some (off + count),
                 decryptedSize := decryptedSize ctx - int count\<rparr>,
             tr, take count (drop off (incoming ctx)))"
  using assms SSL_ReadDecrypted_partial[OF assms] by (simp add: SSL_Read_def)

theorem SSL_Read_partial_drain_witness:
  "SSL_Read quiet_env pending_window_ctx [] 1 =
     Return (SEC_E_OK, pending_window_ctx\<lparr>decryptedData := Some 2, decryptedSize := 1\<rparr>, [], [104])"
  using SSL_Read_partial_drain[of pending_window_ctx 1 1 quiet_env "[]"]
  by (simp add: pending_window_ctx_def cleared_SSLContext_def TLS_MAX_PACKET_SIZE_def)

subsection \<open>A full buffer\<close>

lemma SSL_RecvRaw_full:
  "bufferLen ctx = int TLS_MAX_PACKET_SIZE \<Longrightarrow>
     SSL_RecvRaw E ctx tr = Return (ERR_INVALID_ARGUMENT, ctx, tr)"
  by (simp add: SSL_RecvRaw_def)

text \<open>
  C3. With a full buffer (\<^verbatim>\<open>bufferLen\<close> equal to the capacity), \<^verbatim>\<open>SSL_RecvRaw\<close>
  returns \<^verbatim>\<open>ERR_INVALID_ARGUMENT\<close> (the code's protocol violation) without calling the
  transport and without touching the session. So does \<^verbatim>\<open>SSL_Read\<close> when there is no
  pending window and the engine finds the buffer's contents incomplete, and so does
  \<^verbatim>\<open>SSL_Negotiate\<close> when the engine finds them incomplete and reports no unprocessed
  rest: the only call is the one to the engine, the fill length and the size of the
  buffer stay what they were.
\<close>

theorem full_buffer_is_fatal:
  assumes full: "bufferLen ctx = int TLS_MAX_PACKET_SIZE"
  shows "(let presented = take TLS_MAX_PACKET_SIZE (incoming ctx);
              d = FP_DecryptMessage E tr (context_h ctx) presented;
              call = \<lparr>phCredential = handle ctx, phContext = Some (context_h ctx),
                      pszTargetName = None, fContextReq = flags ctx,
                      pInput = Some presented\<rparr>;
              r = FP_InitializeSecurityContextA E tr call
          in
          SSL_RecvRaw E ctx tr = Return (ERR_INVALID_ARGUMENT, ctx, tr)
          \<and> (decryptedData ctx = None \<and> dec_sec d = SEC_E_INCOMPLETE_MESSAGE \<longrightarrow>
               (\<exists>ctx'. SSL_Read E ctx tr count =
                         Return (ERR_INVALID_ARGUMENT, ctx',
                                 tr @ [EvDecryptMessage (context_h ctx) presented d], [])
                   \<and> bufferLen ctx' = bufferLen ctx
                   \<and> length (incoming ctx') = length (incoming ctx)))
          \<and> (isc_sec r = SEC_E_INCOMPLETE_MESSAGE \<and> isc_extra r = None \<longrightarrow>
               SSL_Negotiate E (Suc fuel) ctx tr =
                 Return (ERR_INVALID_ARGUMENT, ctx, tr @ [EvInitializeSecurityContext call r])))"
proof -
  let ?p = "take TLS_MAX_PACKET_SIZE (incoming ctx)"
  let ?d = "FP_DecryptMessage E tr (context_h ctx) ?p"
  let ?call = "\<lparr>phCredential = handle ctx, phContext = Some (context_h ctx),
                      pszTargetName = None, fContextReq = flags ctx,
                      pInput = Some ?p\<rparr>"
  let ?r = "FP_InitializeSecurityContextA E tr ?call"
  have recv: "SSL_RecvRaw E ctx tr = Return (ERR_INVALID_ARGUMENT, ctx, tr)"
    using full by (rule SSL_RecvRaw_full)
  have rd: "\<exists>ctx'. SSL_Read E ctx tr count =
                         Return (ERR_INVALID_ARGUMENT, ctx',
                                 tr @ [EvDecryptMessage (context_h ctx) ?p ?d], [])
                   \<and> bufferLen ctx' = bufferLen ctx
                   \<and> length (incoming ctx') = length (incoming ctx)"
    if w: "decryptedData ctx = None" and d: "dec_sec ?d = SEC_E_INCOMPLETE_MESSAGE"
  proof -
    let ?ctx1 = "ctx\<lparr>incoming := store_bytes (incoming ctx) 0 (in_place ?p (dec_written ?d))\<rparr>"
    let ?tr1 = "tr @ [EvDecryptMessage (context_h ctx) ?p ?d]"
    have dec: "SSL_Read_decrypt E ctx tr count = Inr (?ctx1, ?tr1)"
      using full d by (simp add: SSL_Read_decrypt_def Let_def TLS_MAX_PACKET_SIZE_def)
    have "SSL_RecvRaw E ?ctx1 ?tr1 = Return (ERR_INVALID_ARGUMENT, ?ctx1, ?tr1)"
      using full by (intro SSL_RecvRaw_full) simp
    with dec have "SSL_Read_loop E ctx tr count = Return (ERR_INVALID_ARGUMENT, ?ctx1, ?tr1, [])"
      by (subst SSL_Read_loop.simps) simp
    moreover have "length (incoming ?ctx1) = length (incoming ctx)"
      by (simp add: store_bytes_def in_place_def)
    ultimately show ?thesis
      using w by (simp add: SSL_Read_def)
  qed
  have neg: "SSL_Negotiate E (Suc fuel) ctx tr =
                 Return (ERR_INVALID_ARGUMENT, ctx, tr @ [EvInitializeSecurityContext ?call ?r])"
    if "isc_sec ?r = SEC_E_INCOMPLETE_MESSAGE" "isc_extra ?r = None"
    using that full by (simp add: SSL_Negotiate_consume_def Let_def SSL_RecvRaw_full)
  show ?thesis
    unfolding Let_def using recv rd neg by blast
qed

theorem full_buffer_is_fatal_witness:
  "SSL_RecvRaw starving_env full_ctx [] = Return (ERR_INVALID_ARGUMENT, full_ctx, [])
   \<and> (\<exists>ctx' e. SSL_Read starving_env full_ctx [] 5 = Return (ERR_INVALID_ARGUMENT, ctx', [e], [])
         \<and> bufferLen ctx' = int TLS_MAX_PACKET_SIZE
         \<and> length (incoming ctx') = TLS_MAX_PACKET_SIZE)
   \<and> (\<exists>e. SSL_Negotiate starving_env (Suc 0) full_ctx [] =
             Return (ERR_INVALID_ARGUMENT, full_ctx, [e]))"
proof -
  have full: "bufferLen full_ctx = int TLS_MAX_PACKET_SIZE"
    and len: "length (incoming full_ctx) = TLS_MAX_PACKET_SIZE"
    and win: "decryptedData full_ctx = None"
    by (simp_all add: full_ctx_def cleared_SSLContext_def)
  have dec: "dec_sec (FP_DecryptMessage starving_env tr h bs) = SEC_E_INCOMPLETE_MESSAGE" for tr h bs
    by (simp add: starving_env_def quiet_env_def)
  have isc: "isc_sec (FP_InitializeSecurityContextA starving_env tr c) = SEC_E_INCOMPLETE_MESSAGE"
    "isc_extra (FP_InitializeSecurityContextA starving_env tr c) = None" for tr c
    by (simp_all add: starving_env_def)
  from full_buffer_is_fatal[OF full, of starving_env "[]" 5 0] show ?thesis
    unfolding Let_def by (simp add: full len win dec isc) blast
qed

subsection \<open>The transport closes while a record is awaited\<close>

lemma SSL_Read_decrypt_Inl_trace:
  "SSL_Read_decrypt E ctx tr count = Inl (Return (res, ctx', tr', out)) \<Longrightarrow>
     \<exists>new. tr' = tr @ new \<and> (\<forall>e\<in>set new. \<not> zero_read e)"
  by (auto simp: SSL_Read_decrypt_def Let_def split: if_splits exec.splits)

lemma SSL_Read_decrypt_Inr_trace:
  "SSL_Read_decrypt E ctx tr count = Inr (ctx1, tr1) \<Longrightarrow>
     \<exists>new. tr1 = tr @ new \<and> (\<forall>e\<in>set new. \<not> zero_read e)"
  by (auto simp: SSL_Read_decrypt_def Let_def split: if_splits exec.splits)

lemma SSL_RecvRaw_trace:
  "SSL_RecvRaw E ctx tr = Return (res, ctx', tr') \<Longrightarrow>
     \<exists>new. tr' = tr @ new \<and> ((\<exists>e\<in>set new. zero_read e) \<longrightarrow> res = ERR_END_OF_STREAM)
        \<and> (res = SEC_E_OK \<longrightarrow> (\<forall>e\<in>set new. \<not> zero_read e))"
  by (auto simp: SSL_RecvRaw_def Let_def split: if_splits prod.splits)

lemma SSL_RecvRaw_closed:
  assumes "0 \<le> bufferLen ctx" "bufferLen ctx < int TLS_MAX_PACKET_SIZE"
    and "Socket_Read E tr (socket ctx) (TLS_MAX_PACKET_SIZE - nat (bufferLen ctx)) = (SEC_E_OK, [])"
  shows "SSL_RecvRaw E ctx tr =
           Return (ERR_END_OF_STREAM, ctx,
                   tr @ [EvSocketRead (socket ctx) (TLS_MAX_PACKET_SIZE - nat (bufferLen ctx))
                           SEC_E_OK []])"
  using assms by (simp add: SSL_RecvRaw_def Let_def store_bytes_nothing)

lemma SSL_Read_loop_unfold:
  "SSL_Read_decrypt E ctx tr count = Inr (ctx1, tr1) \<Longrightarrow>
   SSL_RecvRaw E ctx1 tr1 = Return (res, ctx2, tr2) \<Longrightarrow>
   SSL_Read_loop E ctx tr count =
     (if res \<noteq> SEC_E_OK then Return (res, ctx2, tr2, []) else SSL_Read_loop E ctx2 tr2 count)"
  by (subst SSL_Read_loop.simps) simp

lemma SSL_Read_loop_zero_read:
  "SSL_Read_loop E ctx tr count = Return (res, ctx', tr', out) \<Longrightarrow>
     \<exists>new. tr' = tr @ new \<and> ((\<exists>e\<in>set new. zero_read e) \<longrightarrow> res = ERR_END_OF_STREAM)"
proof (induction E ctx tr count rule: SSL_Read_loop.induct)
  case (1 E ctx tr count)
  show ?case
  proof (cases "SSL_Read_decrypt E ctx tr count")
    case (Inl result)
    with "1.prems" have "SSL_Read_decrypt E ctx tr count = Inl (Return (res, ctx', tr', out))"
      by (subst (asm) SSL_Read_loop.simps) simp
    from SSL_Read_decrypt_Inl_trace[OF this] show ?thesis by auto
  next
    case (Inr p)
    obtain ctx1 tr1 where p: "p = (ctx1, tr1)" by (cases p)
    from Inr p obtain n1 where n1: "tr1 = tr @ n1" "\<forall>e\<in>set n1. \<not> zero_read e"
      using SSL_Read_decrypt_Inr_trace by blast
    from "1.prems" Inr p obtain r2 ctx2 tr2 where
      rr: "SSL_RecvRaw E ctx1 tr1 = Return (r2, ctx2, tr2)"
      by (subst (asm) SSL_Read_loop.simps) (auto split: exec.splits)
    from SSL_RecvRaw_trace[OF rr] obtain n2 where n2: "tr2 = tr1 @ n2"
      "(\<exists>e\<in>set n2. zero_read e) \<longrightarrow> r2 = ERR_END_OF_STREAM"
      "r2 = SEC_E_OK \<longrightarrow> (\<forall>e\<in>set n2. \<not> zero_read e)" by blast
    note unf = SSL_Read_loop_unfold[OF Inr[unfolded p] rr]
    show ?thesis
    proof (cases "r2 = SEC_E_OK")
      case True
      with "1.prems" unf have l: "SSL_Read_loop E ctx2 tr2 count = Return (res, ctx', tr', out)"
        by simp
      from "1.IH"[OF Inr p[symmetric] rr refl refl _ l] True
      obtain n3 where "tr' = tr2 @ n3" "(\<exists>e\<in>set n3. zero_read e) \<longrightarrow> res = ERR_END_OF_STREAM"
        by auto
      with n1 n2 True show ?thesis
        by (intro exI[of _ "n1 @ n2 @ n3"]) auto
    next
      case False
      with "1.prems" unf have "res = r2" "tr' = tr2"
        by simp_all
      with n1 n2 show ?thesis
        by (intro exI[of _ "n1 @ n2"]) auto
    qed
  qed
qed

text \<open>
  C6. If a transport read succeeds with 0 bytes at any point of an \<^verbatim>\<open>SSL_Read\<close> that
  returns, the result is \<^verbatim>\<open>ERR_END_OF_STREAM\<close>. And \<^verbatim>\<open>SSL_Read\<close> does return then:
  when there is no pending window, the decrypt attempt falls through (the buffer is
  empty or the engine finds it incomplete), the buffer is not full and the
  transport answers 0 bytes, the result is \<^verbatim>\<open>ERR_END_OF_STREAM\<close> right after that
  read.
\<close>

theorem SSL_Read_end_of_stream:
  "(\<forall>res ctx' tr' out.
       SSL_Read E ctx tr count = Return (res, ctx', tr', out) \<and>
       (\<exists>e\<in>set (drop (length tr) tr'). zero_read e) \<longrightarrow> res = ERR_END_OF_STREAM)
   \<and> (decryptedData ctx = None \<and> SSL_Read_decrypt E ctx tr count = Inr (ctx1, tr1) \<and>
       0 \<le> bufferLen ctx1 \<and> bufferLen ctx1 < int TLS_MAX_PACKET_SIZE \<and>
       Socket_Read E tr1 (socket ctx1) (TLS_MAX_PACKET_SIZE - nat (bufferLen ctx1)) = (SEC_E_OK, [])
       \<longrightarrow> SSL_Read E ctx tr count =
             Return (ERR_END_OF_STREAM, ctx1,
                     tr1 @ [EvSocketRead (socket ctx1) (TLS_MAX_PACKET_SIZE - nat (bufferLen ctx1))
                              SEC_E_OK []], []))"
proof (intro conjI allI impI)
  fix res ctx' tr' out
  assume a: "SSL_Read E ctx tr count = Return (res, ctx', tr', out) \<and>
       (\<exists>e\<in>set (drop (length tr) tr'). zero_read e)"
  show "res = ERR_END_OF_STREAM"
  proof (cases "decryptedData ctx")
    case None
    with a have "SSL_Read_loop E ctx tr count = Return (res, ctx', tr', out)"
      by (simp add: SSL_Read_def)
    from SSL_Read_loop_zero_read[OF this] a show ?thesis by auto
  next
    case (Some off)
    with a have "tr' = tr"
      by (auto simp: SSL_Read_def split: exec.splits)
    with a show ?thesis by simp
  qed
next
  assume a: "decryptedData ctx = None \<and> SSL_Read_decrypt E ctx tr count = Inr (ctx1, tr1) \<and>
       0 \<le> bufferLen ctx1 \<and> bufferLen ctx1 < int TLS_MAX_PACKET_SIZE \<and>
       Socket_Read E tr1 (socket ctx1) (TLS_MAX_PACKET_SIZE - nat (bufferLen ctx1)) = (SEC_E_OK, [])"
  then have "SSL_RecvRaw E ctx1 tr1 =
           Return (ERR_END_OF_STREAM, ctx1,
                   tr1 @ [EvSocketRead (socket ctx1) (TLS_MAX_PACKET_SIZE - nat (bufferLen ctx1))
                           SEC_E_OK []])"
    by (intro SSL_RecvRaw_closed) simp_all
  from SSL_Read_loop_unfold[OF _ this] a
  show "SSL_Read E ctx tr count =
             Return (ERR_END_OF_STREAM, ctx1,
                     tr1 @ [EvSocketRead (socket ctx1) (TLS_MAX_PACKET_SIZE - nat (bufferLen ctx1))
                              SEC_E_OK []], [])"
    by (simp add: SSL_Read_def)
qed

theorem SSL_Read_end_of_stream_witness:
  "SSL_Read quiet_env cleared_SSLContext [] 5 =
     Return (ERR_END_OF_STREAM, cleared_SSLContext,
             [EvSocketRead 0 TLS_MAX_PACKET_SIZE SEC_E_OK []], [])
   \<and> zero_read (EvSocketRead 0 TLS_MAX_PACKET_SIZE SEC_E_OK [])"
proof -
  have d: "SSL_Read_decrypt quiet_env cleared_SSLContext [] 5 = Inr (cleared_SSLContext, [])"
    by (simp add: SSL_Read_decrypt_def cleared_SSLContext_def)
  have s: "Socket_Read quiet_env [] (socket cleared_SSLContext)
             (TLS_MAX_PACKET_SIZE - nat (bufferLen cleared_SSLContext)) = (SEC_E_OK, [])"
    by (simp add: quiet_env_def)
  from SSL_Read_end_of_stream[of quiet_env cleared_SSLContext "[]" 5 cleared_SSLContext "[]"] d s
  show ?thesis
    by (simp add: cleared_SSLContext_def TLS_MAX_PACKET_SIZE_def)
qed

subsection \<open>Draining the window\<close>

text \<open>
  C2. With a non-empty plaintext window of at most \<^verbatim>\<open>count\<close> bytes that lies in the
  buffer, and a leftover count within the fill length, \<^verbatim>\<open>SSL_Read\<close> returns the
  window's bytes with no external call; afterwards the last \<^verbatim>\<open>leftover\<close> bytes of the
  filled part stand at the front of the buffer, the fill length is the old
  \<^verbatim>\<open>leftover\<close>, \<^verbatim>\<open>leftover\<close> is 0 and the window is cleared. If those leftover bytes
  are a record the engine decrypts (its content inside the buffer, its unprocessed
  rest no longer than what it was handed), the next \<^verbatim>\<open>SSL_Read\<close> hands exactly them
  to the engine and returns that record's content, up to \<open>n\<close> bytes; the engine
  call is the only external call, so no transport read is issued.
\<close>

theorem SSL_Read_full_drain:
  assumes win: "decryptedData ctx = Some off" "0 < decryptedSize ctx" "decryptedSize ctx \<le> int count"
    and inb: "off + nat (decryptedSize ctx) \<le> TLS_MAX_PACKET_SIZE"
    and lo: "0 \<le> leftover ctx" "leftover ctx \<le> bufferLen ctx" "bufferLen ctx \<le> int TLS_MAX_PACKET_SIZE"
    and len: "length (incoming ctx) = TLS_MAX_PACKET_SIZE"
  shows "(let rest = take (nat (leftover ctx)) (drop (nat (bufferLen ctx - leftover ctx)) (incoming ctx));
              ctx' = ctx\<lparr>incoming := memmove_front (incoming ctx)
                              (nat (bufferLen ctx - leftover ctx)) (nat (leftover ctx)),
                         bufferLen := leftover ctx, leftover := 0,
                         decryptedData := None, decryptedSize := 0\<rparr>;
              r = FP_DecryptMessage E tr (context_h ctx) rest
          in
          SSL_Read E ctx tr count =
            Return (SEC_E_OK, ctx', tr, take (nat (decryptedSize ctx)) (drop off (incoming ctx)))
          \<and> take (nat (bufferLen ctx')) (incoming ctx') = rest
          \<and> (0 < leftover ctx \<and> dec_sec r = SEC_E_OK
               \<and> fst (dec_data r) + snd (dec_data r) \<le> TLS_MAX_PACKET_SIZE
               \<and> (case dec_extra r of None \<Rightarrow> True | Some x \<Rightarrow> int x \<le> leftover ctx) \<longrightarrow>
              (\<exists>ctx''. SSL_Read E ctx' tr n =
                 Return (SEC_E_OK, ctx'', tr @ [EvDecryptMessage (context_h ctx) rest r],
                         take (min n (snd (dec_data r)))
                           (drop (fst (dec_data r))
                              (store_bytes (incoming ctx') 0 (in_place rest (dec_written r))))))))"
proof -
  define rest where "rest = take (nat (leftover ctx)) (drop (nat (bufferLen ctx - leftover ctx)) (incoming ctx))"
  define ctx' where "ctx' = ctx\<lparr>incoming := memmove_front (incoming ctx)
                              (nat (bufferLen ctx - leftover ctx)) (nat (leftover ctx)),
                         bufferLen := leftover ctx, leftover := 0,
                         decryptedData := None, decryptedSize := 0\<rparr>"
  define r where "r = FP_DecryptMessage E tr (context_h ctx) rest"
  have first: "SSL_Read E ctx tr count =
            Return (SEC_E_OK, ctx', tr, take (nat (decryptedSize ctx)) (drop off (incoming ctx)))"
    using SSL_ReadDecrypted_drain[of ctx off count] win inb lo
    by (simp add: SSL_Read_def ctx'_def)
  have fit: "nat (bufferLen ctx - leftover ctx) + nat (leftover ctx) \<le> length (incoming ctx)"
    using lo len by simp
  have front: "take (nat (bufferLen ctx')) (incoming ctx') = rest"
    using take_memmove_front[OF fit] by (simp add: ctx'_def rest_def)
  have second: "\<exists>ctx''. SSL_Read E ctx' tr n =
                 Return (SEC_E_OK, ctx'', tr @ [EvDecryptMessage (context_h ctx) rest r],
                         take (min n (snd (dec_data r)))
                           (drop (fst (dec_data r))
                              (store_bytes (incoming ctx') 0 (in_place rest (dec_written r)))))"
    if h: "0 < leftover ctx" "dec_sec r = SEC_E_OK"
       "fst (dec_data r) + snd (dec_data r) \<le> TLS_MAX_PACKET_SIZE"
       "case dec_extra r of None \<Rightarrow> True | Some x \<Rightarrow> int x \<le> leftover ctx"
  proof -
    have b: "bufferLen ctx' = leftover ctx" "decryptedData ctx' = None" "context_h ctx' = context_h ctx"
      by (simp_all add: ctx'_def)
    have le: "leftover ctx \<le> int TLS_MAX_PACKET_SIZE" using lo by simp
    define ctx1 where "ctx1 = ctx'\<lparr>incoming := store_bytes (incoming ctx') 0 (in_place rest (dec_written r)),
                         decryptedData := Some (fst (dec_data r)),
                         decryptedSize := int (snd (dec_data r)),
                         leftover := (case dec_extra r of Some n \<Rightarrow> int n | None \<Rightarrow> 0)\<rparr>"
    have ex: "0 \<le> (case dec_extra r of Some n \<Rightarrow> int n | None \<Rightarrow> 0)"
       "(case dec_extra r of Some n \<Rightarrow> int n | None \<Rightarrow> 0) \<le> leftover ctx"
      using h by (auto split: option.splits)
    have conv: "to_int32 (snd (dec_data r)) = int (snd (dec_data r))"
      "(case dec_extra r of Some n \<Rightarrow> to_int32 n | None \<Rightarrow> 0) =
       (case dec_extra r of Some n \<Rightarrow> int n | None \<Rightarrow> 0)"
      using h le by (auto simp: to_int32_in_buffer split: option.splits)
    have "0 \<le> decryptedSize ctx1" by (simp add: ctx1_def)
    from SSL_ReadDecrypted_nonneg[OF this, of n]
    have "\<exists>c2. SSL_ReadDecrypted ctx1 n =
                 Return (SEC_E_OK, c2, take (min n (snd (dec_data r))) (drop (fst (dec_data r)) (incoming ctx1)))"
      using h ex le
      by (auto simp: read_window_def Let_def min_def ctx1_def b)
    then obtain c2 where c2: "SSL_ReadDecrypted ctx1 n =
                 Return (SEC_E_OK, c2, take (min n (snd (dec_data r))) (drop (fst (dec_data r)) (incoming ctx1)))"
      by blast
    have "SSL_Read_decrypt E ctx' tr n = Inl (Return (SEC_E_OK, c2, tr @ [EvDecryptMessage (context_h ctx) rest r],
            take (min n (snd (dec_data r))) (drop (fst (dec_data r)) (incoming ctx1))))"
      using h le c2 front
      by (simp add: SSL_Read_decrypt_def Let_def b r_def[symmetric] conv ctx1_def[symmetric])
    then have "SSL_Read E ctx' tr n = Return (SEC_E_OK, c2, tr @ [EvDecryptMessage (context_h ctx) rest r],
            take (min n (snd (dec_data r))) (drop (fst (dec_data r)) (incoming ctx1)))"
      by (simp add: SSL_Read_def b SSL_Read_loop.simps)
    then show ?thesis by (auto simp: ctx1_def)
  qed
  show ?thesis
    unfolding Let_def rest_def[symmetric] ctx'_def[symmetric] r_def[symmetric]
    using first front second by blast
qed

theorem SSL_Read_full_drain_witness:
  "(\<exists>c. SSL_Read decrypting_env two_records_ctx [] 10 = Return (SEC_E_OK, c, [], [104, 105])
      \<and> bufferLen c = 3 \<and> leftover c = 0 \<and> decryptedData c = None \<and> decryptedSize c = 0
      \<and> take 3 (incoming c) = [23, 33, 1]
      \<and> (\<exists>c2 e. SSL_Read decrypting_env c [] 10 = Return (SEC_E_OK, c2, [e], [33])))"
proof -
  have h: "decryptedData two_records_ctx = Some 1" "0 < decryptedSize two_records_ctx"
    "decryptedSize two_records_ctx \<le> int 10"
    "1 + nat (decryptedSize two_records_ctx) \<le> TLS_MAX_PACKET_SIZE"
    "0 \<le> leftover two_records_ctx" "leftover two_records_ctx \<le> bufferLen two_records_ctx"
    "bufferLen two_records_ctx \<le> int TLS_MAX_PACKET_SIZE"
    "length (incoming two_records_ctx) = TLS_MAX_PACKET_SIZE"
    by (simp_all add: two_records_ctx_def cleared_SSLContext_def TLS_MAX_PACKET_SIZE_def)
  from SSL_Read_full_drain[OF h, of decrypting_env "[]" 10] show ?thesis
    by (auto simp: two_records_ctx_def cleared_SSLContext_def decrypting_env_def quiet_env_def
          TLS_MAX_PACKET_SIZE_def Let_def memmove_front_def store_bytes_def in_place_def)
qed

subsection \<open>Teardown\<close>

text \<open>
  C7, as the code has it. \<^verbatim>\<open>SSL_Free\<close> on a live session deletes the security
  context, frees the credentials handle and frees the session, each once, and
  returns 0. It has no guard: a second call on the same pointer reads the fields of
  a session that was freed, and has no defined result.
\<close>

theorem SSL_Free_once:
  assumes "h p = Some ctx"
  shows "SSL_Free h tr p =
           Return (SEC_E_OK, h(p := None),
                   tr @ [EvDeleteSecurityContext (context_h ctx),
                         EvFreeCredentialsHandle (handle ctx), EvMemFree p])
       \<and> SSL_Free (h(p := None))
            (tr @ [EvDeleteSecurityContext (context_h ctx),
                   EvFreeCredentialsHandle (handle ctx), EvMemFree p]) p = Undefined"
  using assms by (simp add: SSL_Free_def)

theorem SSL_Free_once_witness:
  "SSL_Free one_session_heap [] 1 =
     Return (SEC_E_OK, one_session_heap(1 := None),
             [EvDeleteSecurityContext 1, EvFreeCredentialsHandle 1, EvMemFree 1])"
  using SSL_Free_once[of one_session_heap 1 established_ctx "[]"]
  by (simp add: one_session_heap_def established_ctx_def cleared_SSLContext_def)

text \<open>
  C7 as stated fails: after one \<^verbatim>\<open>SSL_Free\<close> of the session at address 1, the second
  call on the same address does not return a result.
\<close>

theorem SSL_Free_twice_counterexample:
  "SSL_Free one_session_heap [] 1 =
     Return (SEC_E_OK, one_session_heap(1 := None),
             [EvDeleteSecurityContext 1, EvFreeCredentialsHandle 1, EvMemFree 1])
   \<and> SSL_Free (one_session_heap(1 := None))
        [EvDeleteSecurityContext 1, EvFreeCredentialsHandle 1, EvMemFree 1] 1 = Undefined"
  by (simp add: SSL_Free_def one_session_heap_def established_ctx_def cleared_SSLContext_def)

subsection \<open>The fill length stays within the buffer\<close>

lemma SSL_RecvRaw_buffer_ok:
  "SSL_RecvRaw E ctx tr = Return (res, ctx', tr') \<Longrightarrow> buffer_ok ctx \<Longrightarrow> buffer_ok ctx'"
  by (auto simp: SSL_RecvRaw_def buffer_ok_def Let_def length_store_bytes
           split: if_splits prod.splits)

lemma SSL_Negotiate_consume_buffer_ok:
  "SSL_Negotiate_consume ctx r = Return ctx' \<Longrightarrow> buffer_ok ctx \<Longrightarrow> buffer_ok ctx'"
  by (auto simp: SSL_Negotiate_consume_def buffer_ok_def length_memmove_front
           split: option.splits if_splits)

text \<open>
  What the steps of a call keep, the call keeps: the handshake, the read loop and
  \<^verbatim>\<open>SSL_Init\<close>, for any property \<open>P\<close> of the session.
\<close>

lemma SSL_Negotiate_keeps:
  assumes consume: "\<And>c r c'. SSL_Negotiate_consume c r = Return c' \<Longrightarrow> P c \<Longrightarrow> P c'"
    and recv: "\<And>c t r c' t'. SSL_RecvRaw E c t = Return (r, c', t') \<Longrightarrow> P c \<Longrightarrow> P c'"
    and sizes: "\<And>c z. P c \<Longrightarrow> P (c\<lparr>sizes := z\<rparr>)"
  shows "SSL_Negotiate E fuel ctx tr = Return (res, ctx', tr') \<Longrightarrow> P ctx \<Longrightarrow> P ctx'"
proof (induction fuel arbitrary: ctx tr)
  case 0
  then show ?case by simp
next
  case (Suc fuel)
  let ?call = "\<lparr>phCredential = handle ctx, phContext = Some (context_h ctx),
                       pszTargetName = None, fContextReq = flags ctx,
                       pInput = Some (take (nat (bufferLen ctx)) (incoming ctx))\<rparr>"
  let ?r = "FP_InitializeSecurityContextA E tr ?call"
  let ?tr1 = "tr @ [EvInitializeSecurityContext ?call ?r]"
  from Suc.prems obtain ctx1 where c1: "SSL_Negotiate_consume ctx ?r = Return ctx1"
    by (auto simp: Let_def split: if_splits exec.splits)
  with Suc.prems(2) have ok1: "P ctx1"
    using consume by blast
  from Suc.prems(1) c1 have body:
    "(if isc_sec ?r = SEC_E_OK then
               (let sz = FP_QueryContextAttributesA E ?tr1 (context_h ctx1) in
                Return (SEC_E_OK, ctx1\<lparr>sizes := sz\<rparr>,
                        ?tr1 @ [EvQueryContextAttributes (context_h ctx1) sz]))
             else if isc_sec ?r = SEC_I_CONTINUE_NEEDED then
               (case SSL_SendRaw E ?tr1 (socket ctx1) (token_bytes (isc_token ?r)) of
                  OutOfFuel \<Rightarrow> OutOfFuel
                | Undefined \<Rightarrow> Undefined
                | Return (res, tr2) \<Rightarrow>
                    if res \<noteq> SEC_E_OK then Return (res, ctx1, tr2 @ [EvFreeContextBuffer])
                    else SSL_Negotiate E fuel ctx1 (tr2 @ [EvFreeContextBuffer]))
             else if isc_sec ?r \<noteq> SEC_E_INCOMPLETE_MESSAGE then Return (isc_sec ?r, ctx1, ?tr1)
             else
               (case SSL_RecvRaw E ctx1 ?tr1 of
                  OutOfFuel \<Rightarrow> OutOfFuel
                | Undefined \<Rightarrow> Undefined
                | Return (res, ctx2, tr2) \<Rightarrow>
                    if res \<noteq> SEC_E_OK then Return (res, ctx2, tr2)
                    else SSL_Negotiate E fuel ctx2 tr2)) = Return (res, ctx', tr')"
    by (simp add: Let_def split: if_splits)
  show ?case
  proof (cases "isc_sec ?r = SEC_E_OK")
    case True
    with body sizes[OF ok1] show ?thesis by (auto simp: Let_def)
  next
    case nok: False
    show ?thesis
    proof (cases "isc_sec ?r = SEC_I_CONTINUE_NEEDED")
      case True
      with nok body ok1 Suc.IH show ?thesis
        by (auto split: exec.splits if_splits)
    next
      case ncont: False
      show ?thesis
      proof (cases "isc_sec ?r = SEC_E_INCOMPLETE_MESSAGE")
        case False
        with nok ncont body ok1 show ?thesis by simp
      next
        case True
        with nok ncont body obtain r2 ctx2 tr2 where
          rr: "SSL_RecvRaw E ctx1 ?tr1 = Return (r2, ctx2, tr2)"
          and fin: "(if r2 \<noteq> SEC_E_OK then Return (r2, ctx2, tr2)
                    else SSL_Negotiate E fuel ctx2 tr2) = Return (res, ctx', tr')"
          by (auto split: exec.splits)
        from recv[OF rr ok1] have "P ctx2" .
        with fin Suc.IH show ?thesis by (auto split: if_splits)
      qed
    qed
  qed
qed

lemma SSL_Negotiate_buffer_ok:
  "SSL_Negotiate E fuel ctx tr = Return (res, ctx', tr') \<Longrightarrow> buffer_ok ctx \<Longrightarrow> buffer_ok ctx'"
proof (rule SSL_Negotiate_keeps[where P = buffer_ok])
  show "buffer_ok (c\<lparr>sizes := z\<rparr>)" if "buffer_ok c" for c z
    using that by (simp add: buffer_ok_def)
qed (assumption | rule SSL_Negotiate_consume_buffer_ok SSL_RecvRaw_buffer_ok)+

lemma SSL_ReadDecrypted_buffer_ok:
  "SSL_ReadDecrypted ctx count = Return (res, ctx', out) \<Longrightarrow> buffer_ok ctx \<Longrightarrow> buffer_ok ctx'"
  by (auto simp: SSL_ReadDecrypted_def buffer_ok_def Let_def length_memmove_front
           split: if_splits option.splits)

lemma SSL_Read_decrypt_buffer_ok:
  assumes "buffer_ok ctx"
  shows "SSL_Read_decrypt E ctx tr count = Inl (Return (res, ctx', tr', out)) \<Longrightarrow> buffer_ok ctx'"
    and "SSL_Read_decrypt E ctx tr count = Inr (ctx1, tr1) \<Longrightarrow> buffer_ok ctx1"
proof -
  let ?p = "take (nat (bufferLen ctx)) (incoming ctx)"
  let ?r = "FP_DecryptMessage E tr (context_h ctx) ?p"
  let ?ctx1 = "ctx\<lparr>incoming := store_bytes (incoming ctx) 0 (in_place ?p (dec_written ?r))\<rparr>"
  have ok1: "buffer_ok ?ctx1"
    using assms by (simp add: buffer_ok_def length_store_bytes length_in_place)
  then have ok2: "buffer_ok (?ctx1\<lparr>decryptedData := a, decryptedSize := b, leftover := c\<rparr>)" for a b c
    by (simp add: buffer_ok_def)
  show "buffer_ok ctx'" if "SSL_Read_decrypt E ctx tr count = Inl (Return (res, ctx', tr', out))"
    using that ok1 SSL_ReadDecrypted_buffer_ok[OF _ ok2]
    by (auto simp: SSL_Read_decrypt_def Let_def split: if_splits exec.splits)
  show "buffer_ok ctx1" if "SSL_Read_decrypt E ctx tr count = Inr (ctx1, tr1)"
    using that ok1 assms
    by (auto simp: SSL_Read_decrypt_def Let_def split: if_splits exec.splits)
qed

lemma SSL_Read_loop_keeps:
  assumes served: "\<And>E c t n r c' t' out.
      SSL_Read_decrypt E c t n = Inl (Return (r, c', t', out)) \<Longrightarrow> P c \<Longrightarrow> P c'"
    and awaited: "\<And>E c t n c1 t1. SSL_Read_decrypt E c t n = Inr (c1, t1) \<Longrightarrow> P c \<Longrightarrow> P c1"
    and recv: "\<And>E c t r c' t'. SSL_RecvRaw E c t = Return (r, c', t') \<Longrightarrow> P c \<Longrightarrow> P c'"
  shows "SSL_Read_loop E ctx tr count = Return (res, ctx', tr', out) \<Longrightarrow> P ctx \<Longrightarrow> P ctx'"
proof (induction E ctx tr count rule: SSL_Read_loop.induct)
  case (1 E ctx tr count)
  show ?case
  proof (cases "SSL_Read_decrypt E ctx tr count")
    case (Inl result)
    with "1.prems"(1) have "SSL_Read_decrypt E ctx tr count = Inl (Return (res, ctx', tr', out))"
      by (subst (asm) SSL_Read_loop.simps) simp
    from served[OF this "1.prems"(2)] show ?thesis .
  next
    case (Inr p)
    obtain ctx1 tr1 where p: "p = (ctx1, tr1)" by (cases p)
    from Inr p "1.prems"(2) have ok1: "P ctx1"
      using awaited by blast
    from "1.prems"(1) Inr p obtain r2 ctx2 tr2 where
      rr: "SSL_RecvRaw E ctx1 tr1 = Return (r2, ctx2, tr2)"
      by (subst (asm) SSL_Read_loop.simps) (auto split: exec.splits)
    from recv[OF rr ok1] have ok2: "P ctx2" .
    note unf = SSL_Read_loop_unfold[OF Inr[unfolded p] rr]
    show ?thesis
    proof (cases "r2 = SEC_E_OK")
      case True
      with "1.prems"(1) unf have l: "SSL_Read_loop E ctx2 tr2 count = Return (res, ctx', tr', out)"
        by simp
      from "1.IH"[OF Inr p[symmetric] rr refl refl _ l ok2] True show ?thesis by simp
    next
      case False
      with "1.prems"(1) unf have "ctx' = ctx2" by simp
      with ok2 show ?thesis by simp
    qed
  qed
qed

lemma SSL_Read_loop_buffer_ok:
  "SSL_Read_loop E ctx tr count = Return (res, ctx', tr', out) \<Longrightarrow> buffer_ok ctx \<Longrightarrow> buffer_ok ctx'"
  by (rule SSL_Read_loop_keeps[where P = buffer_ok])
     (assumption | rule SSL_Read_decrypt_buffer_ok SSL_RecvRaw_buffer_ok)+

lemma SSL_Read_buffer_ok:
  assumes "SSL_Read E ctx tr count = Return (res, ctx', tr', out)" and "buffer_ok ctx"
  shows "buffer_ok ctx'"
proof (cases "decryptedData ctx")
  case None
  with assms(1) have "SSL_Read_loop E ctx tr count = Return (res, ctx', tr', out)"
    by (simp add: SSL_Read_def)
  from SSL_Read_loop_buffer_ok[OF this assms(2)] show ?thesis .
next
  case (Some off)
  with assms(1) have "SSL_ReadDecrypted ctx count = Return (res, ctx', out)"
    by (auto simp: SSL_Read_def split: exec.splits)
  from SSL_ReadDecrypted_buffer_ok[OF this assms(2)] show ?thesis .
qed

lemma SSL_WriteChunk_session:
  "SSL_WriteChunk E s tr data = Return (res, s', tr') \<Longrightarrow> s' = s"
  by (auto simp: SSL_WriteChunk_def Let_def split: if_splits exec.splits)

lemma SSL_Write_loop_session:
  "SSL_Write_loop E fuel s tr data w = Return (res, s', tr', wrote) \<Longrightarrow> s' = s"
proof (induction E fuel s tr data w rule: SSL_Write_loop.induct)
  case (3 E fuel s tr b bs wrote)
  then show ?case
    by (auto simp: Let_def split: exec.splits if_splits dest: SSL_WriteChunk_session)
qed simp_all

lemma SSL_Connect_buffer_ok:
  "SSL_Connect E ctx tr host = Return (res, ctx', tr') \<Longrightarrow> buffer_ok ctx \<Longrightarrow> buffer_ok ctx'"
  by (auto simp: SSL_Connect_def Let_def buffer_ok_def split: if_splits option.splits exec.splits)

lemma SSL_CreateHandle_buffer_ok:
  "SSL_CreateHandle E v ctx tr = (res, ctx', tr') \<Longrightarrow> buffer_ok ctx \<Longrightarrow> buffer_ok ctx'"
  by (auto simp: SSL_CreateHandle_def buffer_ok_def split: prod.splits)

lemma SSL_Init_keeps:
  assumes start: "\<And>f s. P (cleared_SSLContext\<lparr>flags := f, socket := s\<rparr>)"
    and created: "\<And>v c t r c' t'. SSL_CreateHandle E v c t = (r, c', t') \<Longrightarrow> P c \<Longrightarrow> P c'"
    and connected: "\<And>c t h r c' t'. SSL_Connect E c t h = Return (r, c', t') \<Longrightarrow> P c \<Longrightarrow> P c'"
    and negotiated: "\<And>c t r c' t'. SSL_Negotiate E fuel c t = Return (r, c', t') \<Longrightarrow> P c \<Longrightarrow> P c'"
    and init: "SSL_Init E fuel G tr s host = Return (res, Some ctx, G', tr')"
  shows "P ctx"
proof -
  define ctx0 where "ctx0 = cleared_SSLContext
                     \<lparr>flags := {ISC_REQ_REPLAY_DETECT, ISC_REQ_SEQUENCE_DETECT,
                                ISC_REQ_USE_SUPPLIED_CREDS, ISC_REQ_CONFIDENTIALITY,
                                ISC_REQ_ALLOCATE_MEMORY, ISC_REQ_STREAM}
                               \<union> (if verifyCerts (G\<lparr>FP_loaded := True\<rparr>) then {}
                                   else {ISC_REQ_MANUAL_CRED_VALIDATION}),
                      socket := s\<rparr>"
  have ok0: "P ctx0"
    unfolding ctx0_def by (rule start)
  from init obtain t1 where rest:
    "(case SSL_CreateHandle E (verifyCerts (G\<lparr>FP_loaded := True\<rparr>)) ctx0 t1 of
        (res1, ctx1, tr2) \<Rightarrow>
          if res1 \<noteq> SEC_E_OK then Return (res1, Some ctx1, G\<lparr>FP_loaded := True\<rparr>, tr2)
          else
            (case SSL_Connect E ctx1 tr2 host of
               OutOfFuel \<Rightarrow> OutOfFuel
             | Undefined \<Rightarrow> Undefined
             | Return (res2, ctx2, tr3) \<Rightarrow>
                 if res2 \<noteq> SEC_E_OK then Return (res2, Some ctx2, G\<lparr>FP_loaded := True\<rparr>, tr3)
                 else
                   (case SSL_Negotiate E fuel ctx2 tr3 of
                      OutOfFuel \<Rightarrow> OutOfFuel
                    | Undefined \<Rightarrow> Undefined
                    | Return (res3, ctx3, tr4) \<Rightarrow>
                        Return (res3, Some ctx3, G\<lparr>FP_loaded := True\<rparr>, tr4))))
     = Return (res, Some ctx, G', tr')"
    unfolding SSL_Init_def Let_def ctx0_def by (auto split: if_splits)
  obtain res1 ctx1 tr2 where
    ch: "SSL_CreateHandle E (verifyCerts (G\<lparr>FP_loaded := True\<rparr>)) ctx0 t1 = (res1, ctx1, tr2)"
    by (metis prod_cases3)
  from created[OF ch ok0] have ok1: "P ctx1" .
  show ?thesis
  proof (cases "res1 = SEC_E_OK")
    case False
    with rest ch ok1 show ?thesis by simp
  next
    case True
    with rest ch obtain res2 ctx2 tr3 where
      co: "SSL_Connect E ctx1 tr2 host = Return (res2, ctx2, tr3)"
      by (auto split: exec.splits)
    from connected[OF co ok1] have ok2: "P ctx2" .
    show ?thesis
    proof (cases "res2 = SEC_E_OK")
      case False
      with rest ch co True ok2 show ?thesis by simp
    next
      case ok: True
      with rest ch co True obtain res3 tr4 where
        "SSL_Negotiate E fuel ctx2 tr3 = Return (res3, ctx, tr4)"
        by (auto split: exec.splits)
      from negotiated[OF this ok2] show ?thesis .
    qed
  qed
qed

lemma SSL_Init_buffer_ok:
  assumes "SSL_Init E fuel G tr s host = Return (res, Some ctx, G', tr')"
  shows "buffer_ok ctx"
proof (rule SSL_Init_keeps[where P = buffer_ok, OF _ _ _ _ assms])
  show "buffer_ok (cleared_SSLContext\<lparr>flags := f, socket := s\<rparr>)" for f s
    by (simp add: buffer_ok_def cleared_SSLContext_def)
qed (assumption | rule SSL_CreateHandle_buffer_ok SSL_Connect_buffer_ok SSL_Negotiate_buffer_ok)+

text \<open>
  C8. Every session \<^verbatim>\<open>SSL_Init\<close> hands out, and every session that any sequence of
  \<^verbatim>\<open>SSL_Negotiate\<close>, \<^verbatim>\<open>SSL_Read\<close> and \<^verbatim>\<open>SSL_Write\<close> calls makes of it (with any
  environment, any arguments and any result code), has a fill length between 0 and
  \<^verbatim>\<open>TLS_MAX_PACKET_SIZE\<close>, and its buffer has \<^verbatim>\<open>TLS_MAX_PACKET_SIZE\<close> bytes. The
  code assigns the fill length unchecked from what the engine and the transport
  report; a report that does not fit (more unprocessed bytes than the engine was
  handed, more bytes stored than the transport was asked for) has already made
  \<^verbatim>\<open>memmove\<close> or the transport leave the array, so that run is \<open>Undefined\<close> and
  yields no session.
\<close>

theorem reachable_bufferLen:
  assumes "reachable E ctx"
  shows "0 \<le> bufferLen ctx \<and> bufferLen ctx \<le> int TLS_MAX_PACKET_SIZE
       \<and> length (incoming ctx) = TLS_MAX_PACKET_SIZE"
proof -
  from assms have "buffer_ok ctx"
  proof induction
    case (reach_Init fuel G tr s host res ctx G' tr')
    then show ?case by (rule SSL_Init_buffer_ok)
  next
    case (reach_Negotiate ctx fuel tr res ctx' tr')
    then show ?case using SSL_Negotiate_buffer_ok by blast
  next
    case (reach_Read ctx tr count res ctx' tr' out)
    then show ?case using SSL_Read_buffer_ok by blast
  next
    case (reach_Write ctx fuel tr data res ctx' tr' wrote)
    then show ?case using SSL_Write_loop_session by (simp add: SSL_Write_def) blast
  qed
  then show ?thesis by (simp add: buffer_ok_def)
qed

theorem reachable_bufferLen_witness:
  "reachable quiet_env established_ctx
   \<and> 0 \<le> bufferLen established_ctx \<and> bufferLen established_ctx \<le> int TLS_MAX_PACKET_SIZE
   \<and> length (incoming established_ctx) = TLS_MAX_PACKET_SIZE"
proof -
  have "\<exists>tr'. SSL_Init quiet_env (Suc 0)
          \<lparr>InitSecurityInterfaceA_loaded = True, FP_loaded = False, verifyCerts = True\<rparr>
          [] 3 ''classicube.net'' =
        Return (SEC_E_OK, Some established_ctx,
                \<lparr>InitSecurityInterfaceA_loaded = True, FP_loaded = True, verifyCerts = True\<rparr>, tr')"
    by (simp add: SSL_Init_def SSL_CreateHandle_def SSL_Connect_def SSL_Negotiate_consume_def
          quiet_env_def established_ctx_def cleared_SSLContext_def Let_def)
  then have r: "reachable quiet_env established_ctx"
    by (auto intro: reach_Init)
  from reachable_bufferLen[OF r] r show ?thesis by simp
qed

subsection \<open>How many bytes a read delivers\<close>

lemma to_uint32_pos: "i \<noteq> 0 \<Longrightarrow> - (2 ^ 31) \<le> i \<Longrightarrow> 1 \<le> to_uint32 i"
  by (auto simp: to_uint32_def)

lemma to_int32_lower: "- (2 ^ 31) \<le> to_int32 n"
  by (simp add: to_int32_def)

lemma SSL_ReadDecrypted_length:
  assumes "SSL_ReadDecrypted ctx count = Return (res, ctx', out)"
    and "length (incoming ctx) = TLS_MAX_PACKET_SIZE"
  shows "res = SEC_E_OK \<and> length out = min count (to_uint32 (decryptedSize ctx))"
  using assms
  by (auto simp: SSL_ReadDecrypted_def read_window_def Let_def
           split: if_splits option.splits)

text \<open>The window is kept in order by every operation.\<close>

lemma SSL_ReadDecrypted_window_ok:
  "SSL_ReadDecrypted ctx count = Return (res, ctx', out) \<Longrightarrow> window_ok ctx'"
  by (auto simp: SSL_ReadDecrypted_def window_ok_def Let_def split: if_splits option.splits)

lemma SSL_RecvRaw_window_ok:
  "SSL_RecvRaw E ctx tr = Return (res, ctx', tr') \<Longrightarrow> window_ok ctx \<Longrightarrow> window_ok ctx'"
  by (auto simp: SSL_RecvRaw_def window_ok_def Let_def split: if_splits prod.splits)

lemma SSL_Negotiate_consume_window_ok:
  "SSL_Negotiate_consume ctx r = Return ctx' \<Longrightarrow> window_ok ctx \<Longrightarrow> window_ok ctx'"
  by (auto simp: SSL_Negotiate_consume_def window_ok_def split: option.splits if_splits)

lemma SSL_Negotiate_window_ok:
  "SSL_Negotiate E fuel ctx tr = Return (res, ctx', tr') \<Longrightarrow> window_ok ctx \<Longrightarrow> window_ok ctx'"
proof (rule SSL_Negotiate_keeps[where P = window_ok])
  show "window_ok (c\<lparr>sizes := z\<rparr>)" if "window_ok c" for c z
    using that by (simp add: window_ok_def)
qed (assumption | rule SSL_Negotiate_consume_window_ok SSL_RecvRaw_window_ok)+

lemma SSL_Read_decrypt_window_ok:
  assumes "window_ok ctx"
  shows "SSL_Read_decrypt E ctx tr count = Inl (Return (res, ctx', tr', out)) \<Longrightarrow> window_ok ctx'"
    and "SSL_Read_decrypt E ctx tr count = Inr (ctx1, tr1) \<Longrightarrow> window_ok ctx1"
proof -
  let ?p = "take (nat (bufferLen ctx)) (incoming ctx)"
  let ?r = "FP_DecryptMessage E tr (context_h ctx) ?p"
  let ?ctx1 = "ctx\<lparr>incoming := store_bytes (incoming ctx) 0 (in_place ?p (dec_written ?r))\<rparr>"
  have ok1: "window_ok ?ctx1"
    using assms by (simp add: window_ok_def)
  show "window_ok ctx'" if "SSL_Read_decrypt E ctx tr count = Inl (Return (res, ctx', tr', out))"
    using that ok1 SSL_ReadDecrypted_window_ok
    by (auto simp: SSL_Read_decrypt_def Let_def split: if_splits exec.splits)
  show "window_ok ctx1" if "SSL_Read_decrypt E ctx tr count = Inr (ctx1, tr1)"
    using that ok1 assms
    by (auto simp: SSL_Read_decrypt_def Let_def split: if_splits exec.splits)
qed

lemma SSL_Read_loop_window_ok:
  "SSL_Read_loop E ctx tr count = Return (res, ctx', tr', out) \<Longrightarrow> window_ok ctx \<Longrightarrow> window_ok ctx'"
  by (rule SSL_Read_loop_keeps[where P = window_ok])
     (assumption | rule SSL_Read_decrypt_window_ok SSL_RecvRaw_window_ok)+

lemma SSL_Read_window_ok:
  assumes "SSL_Read E ctx tr count = Return (res, ctx', tr', out)" and "window_ok ctx"
  shows "window_ok ctx'"
proof (cases "decryptedData ctx")
  case None
  with assms(1) have "SSL_Read_loop E ctx tr count = Return (res, ctx', tr', out)"
    by (simp add: SSL_Read_def)
  from SSL_Read_loop_window_ok[OF this assms(2)] show ?thesis .
next
  case (Some off)
  with assms(1) have "SSL_ReadDecrypted ctx count = Return (res, ctx', out)"
    by (auto simp: SSL_Read_def split: exec.splits)
  from SSL_ReadDecrypted_window_ok[OF this] show ?thesis .
qed

lemma SSL_Connect_window_ok:
  "SSL_Connect E ctx tr host = Return (res, ctx', tr') \<Longrightarrow> window_ok ctx \<Longrightarrow> window_ok ctx'"
  by (auto simp: SSL_Connect_def Let_def window_ok_def split: if_splits option.splits exec.splits)

lemma SSL_CreateHandle_window_ok:
  "SSL_CreateHandle E v ctx tr = (res, ctx', tr') \<Longrightarrow> window_ok ctx \<Longrightarrow> window_ok ctx'"
  by (auto simp: SSL_CreateHandle_def window_ok_def split: prod.splits)

lemma SSL_Init_window_ok:
  assumes "SSL_Init E fuel G tr s host = Return (res, Some ctx, G', tr')"
  shows "window_ok ctx"
proof (rule SSL_Init_keeps[where P = window_ok, OF _ _ _ _ assms])
  show "window_ok (cleared_SSLContext\<lparr>flags := f, socket := s\<rparr>)" for f s
    by (simp add: window_ok_def cleared_SSLContext_def)
qed (assumption | rule SSL_CreateHandle_window_ok SSL_Connect_window_ok SSL_Negotiate_window_ok)+

lemma reachable_session_ok:
  assumes "reachable E ctx"
  shows "buffer_ok ctx \<and> window_ok ctx"
  using assms
proof induction
  case (reach_Init fuel G tr s host res ctx G' tr')
  then show ?case using SSL_Init_buffer_ok SSL_Init_window_ok by blast
next
  case (reach_Negotiate ctx fuel tr res ctx' tr')
  then show ?case using SSL_Negotiate_buffer_ok SSL_Negotiate_window_ok by blast
next
  case (reach_Read ctx tr count res ctx' tr' out)
  then show ?case using SSL_Read_buffer_ok SSL_Read_window_ok by blast
next
  case (reach_Write ctx fuel tr data res ctx' tr' wrote)
  then show ?case using SSL_Write_loop_session by (simp add: SSL_Write_def) blast
qed

text \<open>What a read that decrypts a record delivers.\<close>

lemma SSL_Read_decrypt_Inl_length:
  assumes "SSL_Read_decrypt E ctx tr count = Inl (Return (SEC_E_OK, ctx', tr', out))"
    and "length (incoming ctx) = TLS_MAX_PACKET_SIZE" "0 < count"
  shows "\<exists>new. tr' = tr @ new \<and> ((\<forall>e\<in>set new. \<not> empty_record e) \<longrightarrow> 1 \<le> length out)"
proof -
  let ?p = "take (nat (bufferLen ctx)) (incoming ctx)"
  let ?r = "FP_DecryptMessage E tr (context_h ctx) ?p"
  let ?c = "ctx\<lparr>incoming := store_bytes (incoming ctx) 0 (in_place ?p (dec_written ?r)),
                decryptedData := Some (fst (dec_data ?r)),
                decryptedSize := to_int32 (snd (dec_data ?r)),
                leftover := (case dec_extra ?r of Some n \<Rightarrow> to_int32 n | None \<Rightarrow> 0)\<rparr>"
  from assms(1) have ok: "dec_sec ?r = SEC_E_OK"
    and tr': "tr' = tr @ [EvDecryptMessage (context_h ctx) ?p ?r]"
    and rd: "\<exists>c. SSL_ReadDecrypted ?c count = Return (SEC_E_OK, c, out)"
    by (auto simp: SSL_Read_decrypt_def Let_def split: if_splits exec.splits)
  from rd obtain c where rdc: "SSL_ReadDecrypted ?c count = Return (SEC_E_OK, c, out)"
    by blast
  have l: "length (incoming ?c) = TLS_MAX_PACKET_SIZE"
    using assms(2) by (simp add: length_store_bytes length_in_place)
  from SSL_ReadDecrypted_length[OF rdc l]
  have len: "length out = min count (to_uint32 (to_int32 (snd (dec_data ?r))))"
    by simp
  have "1 \<le> length out" if nz: "to_int32 (snd (dec_data ?r)) \<noteq> 0"
  proof -
    from to_uint32_pos[OF nz to_int32_lower]
    have "1 \<le> to_uint32 (to_int32 (snd (dec_data ?r)))" .
    with len assms(3) show ?thesis by simp
  qed
  with ok tr' show ?thesis by simp
qed

lemma SSL_Read_decrypt_Inr_length:
  "SSL_Read_decrypt E ctx tr count = Inr (ctx1, tr1) \<Longrightarrow>
     length (incoming ctx) = TLS_MAX_PACKET_SIZE \<Longrightarrow>
     length (incoming ctx1) = TLS_MAX_PACKET_SIZE"
  by (auto simp: SSL_Read_decrypt_def Let_def length_store_bytes length_in_place
           split: if_splits exec.splits)

lemma SSL_RecvRaw_length:
  "SSL_RecvRaw E ctx tr = Return (res, ctx', tr') \<Longrightarrow>
     length (incoming ctx) = TLS_MAX_PACKET_SIZE \<Longrightarrow>
     length (incoming ctx') = TLS_MAX_PACKET_SIZE"
  by (auto simp: SSL_RecvRaw_def Let_def length_store_bytes split: if_splits prod.splits)

lemma SSL_Read_loop_length:
  "SSL_Read_loop E ctx tr count = Return (SEC_E_OK, ctx', tr', out) \<Longrightarrow>
   length (incoming ctx) = TLS_MAX_PACKET_SIZE \<Longrightarrow> 0 < count \<Longrightarrow>
   \<exists>new. tr' = tr @ new \<and> ((\<forall>e\<in>set new. \<not> empty_record e) \<longrightarrow> 1 \<le> length out)"
proof (induction E ctx tr count rule: SSL_Read_loop.induct)
  case (1 E ctx tr count)
  show ?case
  proof (cases "SSL_Read_decrypt E ctx tr count")
    case (Inl result)
    with "1.prems"(1) have "SSL_Read_decrypt E ctx tr count = Inl (Return (SEC_E_OK, ctx', tr', out))"
      by (subst (asm) SSL_Read_loop.simps) simp
    from SSL_Read_decrypt_Inl_length[OF this "1.prems"(2,3)] show ?thesis .
  next
    case (Inr p)
    obtain ctx1 tr1 where p: "p = (ctx1, tr1)" by (cases p)
    from Inr p "1.prems"(2) have l1: "length (incoming ctx1) = TLS_MAX_PACKET_SIZE"
      using SSL_Read_decrypt_Inr_length by blast
    from Inr p obtain n1 where n1: "tr1 = tr @ n1"
      using SSL_Read_decrypt_Inr_trace by blast
    from "1.prems"(1) Inr p obtain r2 ctx2 tr2 where
      rr: "SSL_RecvRaw E ctx1 tr1 = Return (r2, ctx2, tr2)"
      by (subst (asm) SSL_Read_loop.simps) (auto split: exec.splits)
    from SSL_RecvRaw_length[OF rr l1] have l2: "length (incoming ctx2) = TLS_MAX_PACKET_SIZE" .
    from SSL_RecvRaw_trace[OF rr] obtain n2 where n2: "tr2 = tr1 @ n2" by blast
    note unf = SSL_Read_loop_unfold[OF Inr[unfolded p] rr]
    from "1.prems"(1) unf have ok: "r2 = SEC_E_OK"
      by (auto split: if_splits)
    with "1.prems"(1) unf have l: "SSL_Read_loop E ctx2 tr2 count = Return (SEC_E_OK, ctx', tr', out)"
      by simp
    from "1.IH"[OF Inr p[symmetric] rr refl refl _ l l2 "1.prems"(3)] ok
    obtain n3 where "tr' = tr2 @ n3" "(\<forall>e\<in>set n3. \<not> empty_record e) \<longrightarrow> 1 \<le> length out"
      by auto
    with n1 n2 show ?thesis
      by (intro exI[of _ "n1 @ n2 @ n3"]) auto
  qed
qed

text \<open>
  C4, as the code has it. \<^verbatim>\<open>SSL_Read\<close> delivers \<^verbatim>\<open>min(count, decryptedSize)\<close> bytes of
  the window it serves, the two compared as unsigned numbers. On every session
  (one that \<^verbatim>\<open>SSL_Init\<close> handed out, after any sequence of \<^verbatim>\<open>SSL_Negotiate\<close>,
  \<^verbatim>\<open>SSL_Read\<close> and \<^verbatim>\<open>SSL_Write\<close> calls, with any environment) and for every
  \<^verbatim>\<open>count\<close> of at least 1: if \<^verbatim>\<open>SSL_Read\<close> returns success and no record that the
  engine decrypted during the call was without content, then \<^verbatim>\<open>*read\<close> is at
  least 1. A window left pending by an earlier call is never empty, so nothing is
  asked of it.
\<close>

theorem SSL_Read_at_least_one:
  assumes "reachable E ctx"
    and "SSL_Read E ctx tr count = Return (SEC_E_OK, ctx', tr', out)"
    and "0 < count"
    and "list_all (\<lambda>e. \<not> empty_record e) (drop (length tr) tr')"
  shows "1 \<le> length out"
proof -
  from reachable_session_ok[OF assms(1)] have len: "length (incoming ctx) = TLS_MAX_PACKET_SIZE"
    and win: "window_ok ctx"
    by (simp_all add: buffer_ok_def)
  show ?thesis
  proof (cases "decryptedData ctx")
    case None
    with assms(2) have "SSL_Read_loop E ctx tr count = Return (SEC_E_OK, ctx', tr', out)"
      by (simp add: SSL_Read_def)
    from SSL_Read_loop_length[OF this len assms(3)] assms(4) show ?thesis
      by (auto simp: list_all_iff)
  next
    case (Some off)
    with assms(2) have "SSL_ReadDecrypted ctx count = Return (SEC_E_OK, ctx', out)"
      by (auto simp: SSL_Read_def split: exec.splits)
    from SSL_ReadDecrypted_length[OF this len]
    have "length out = min count (to_uint32 (decryptedSize ctx))" by simp
    moreover from win Some have "decryptedSize ctx \<noteq> 0" "- (2 ^ 31) \<le> decryptedSize ctx"
      by (simp_all add: window_ok_def)
    then have "1 \<le> to_uint32 (decryptedSize ctx)"
      by (rule to_uint32_pos)
    ultimately show ?thesis using assms(3) by simp
  qed
qed

theorem SSL_Read_at_least_one_witness:
  "reachable serving_env established_ctx
   \<and> SSL_Read serving_env established_ctx [] 5 =
     Return (SEC_E_OK,
             established_ctx\<lparr>incoming := [23, 33, 1] @ replicate (TLS_MAX_PACKET_SIZE - 3) 0\<rparr>,
             [EvSocketRead 3 TLS_MAX_PACKET_SIZE SEC_E_OK [23, 33, 1],
              EvDecryptMessage 1 [23, 33, 1]
                \<lparr>dec_sec = SEC_E_OK, dec_written = [23, 33, 1], dec_data = (1, 1),
                   dec_extra = None\<rparr>],
             [33])
   \<and> 1 \<le> length [33 :: byte]"
proof -
  have "\<exists>tr'. SSL_Init serving_env (Suc 0)
          \<lparr>InitSecurityInterfaceA_loaded = True, FP_loaded = False, verifyCerts = True\<rparr>
          [] 3 ''classicube.net'' =
        Return (SEC_E_OK, Some established_ctx,
                \<lparr>InitSecurityInterfaceA_loaded = True, FP_loaded = True, verifyCerts = True\<rparr>, tr')"
    by (simp add: SSL_Init_def SSL_CreateHandle_def SSL_Connect_def SSL_Negotiate_consume_def
          serving_env_def decrypting_env_def quiet_env_def established_ctx_def
          cleared_SSLContext_def Let_def)
  then have r: "reachable serving_env established_ctx"
    by (auto intro: reach_Init)
  have run: "SSL_Read serving_env established_ctx [] 5 =
     Return (SEC_E_OK,
             established_ctx\<lparr>incoming := [23, 33, 1] @ replicate (TLS_MAX_PACKET_SIZE - 3) 0\<rparr>,
             [EvSocketRead 3 TLS_MAX_PACKET_SIZE SEC_E_OK [23, 33, 1],
              EvDecryptMessage 1 [23, 33, 1]
                \<lparr>dec_sec = SEC_E_OK, dec_written = [23, 33, 1], dec_data = (1, 1),
                   dec_extra = None\<rparr>],
             [33])"
    by (simp add: SSL_Read_def SSL_Read_loop.simps SSL_Read_decrypt_def SSL_ReadDecrypted_def
          SSL_RecvRaw_def read_window_def to_int32_def to_uint32_def
          serving_env_def decrypting_env_def quiet_env_def established_ctx_def
          cleared_SSLContext_def TLS_MAX_PACKET_SIZE_def Let_def memmove_front_def
          store_bytes_def in_place_def)
  from SSL_Read_at_least_one[OF r run] r run show ?thesis by simp
qed

text \<open>
  C4 as stated fails on two inputs, both on a session that \<^verbatim>\<open>SSL_Init\<close> handed
  out. With \<^verbatim>\<open>count = 0\<close>, \<^verbatim>\<open>SSL_Read\<close> receives and decrypts a record, returns
  success and delivers no byte; the content stays in the window. With \<^verbatim>\<open>count = 5\<close>
  and an engine that reports the record as decrypted without content, \<^verbatim>\<open>SSL_Read\<close>
  returns success right after the decryption and delivers no byte either.
\<close>

theorem SSL_Read_no_byte_counterexample:
  "reachable serving_env established_ctx
   \<and> SSL_Read serving_env established_ctx [] 0 =
     Return (SEC_E_OK,
             established_ctx\<lparr>incoming := [23, 33, 1] @ replicate (TLS_MAX_PACKET_SIZE - 3) 0,
                             bufferLen := 3, decryptedData := Some 1, decryptedSize := 1\<rparr>,
             [EvSocketRead 3 TLS_MAX_PACKET_SIZE SEC_E_OK [23, 33, 1],
              EvDecryptMessage 1 [23, 33, 1]
                \<lparr>dec_sec = SEC_E_OK, dec_written = [23, 33, 1], dec_data = (1, 1),
                   dec_extra = None\<rparr>],
             [])
   \<and> reachable empty_record_env established_ctx
   \<and> SSL_Read empty_record_env established_ctx [] 5 =
     Return (SEC_E_OK,
             established_ctx\<lparr>incoming := [23, 33, 1] @ replicate (TLS_MAX_PACKET_SIZE - 3) 0\<rparr>,
             [EvSocketRead 3 TLS_MAX_PACKET_SIZE SEC_E_OK [23, 33, 1],
              EvDecryptMessage 1 [23, 33, 1]
                \<lparr>dec_sec = SEC_E_OK, dec_written = [23, 33, 1], dec_data = (1, 0),
                   dec_extra = None\<rparr>],
             [])"
proof -
  have "\<exists>tr'. SSL_Init serving_env (Suc 0)
          \<lparr>InitSecurityInterfaceA_loaded = True, FP_loaded = False, verifyCerts = True\<rparr>
          [] 3 ''classicube.net'' =
        Return (SEC_E_OK, Some established_ctx,
                \<lparr>InitSecurityInterfaceA_loaded = True, FP_loaded = True, verifyCerts = True\<rparr>, tr')"
    by (simp add: SSL_Init_def SSL_CreateHandle_def SSL_Connect_def SSL_Negotiate_consume_def
          serving_env_def decrypting_env_def quiet_env_def established_ctx_def
          cleared_SSLContext_def Let_def)
  then have r1: "reachable serving_env established_ctx"
    by (auto intro: reach_Init)
  have "\<exists>tr'. SSL_Init empty_record_env (Suc 0)
          \<lparr>InitSecurityInterfaceA_loaded = True, FP_loaded = False, verifyCerts = True\<rparr>
          [] 3 ''classicube.net'' =
        Return (SEC_E_OK, Some established_ctx,
                \<lparr>InitSecurityInterfaceA_loaded = True, FP_loaded = True, verifyCerts = True\<rparr>, tr')"
    by (simp add: SSL_Init_def SSL_CreateHandle_def SSL_Connect_def SSL_Negotiate_consume_def
          empty_record_env_def serving_env_def decrypting_env_def quiet_env_def
          established_ctx_def cleared_SSLContext_def Let_def)
  then have r2: "reachable empty_record_env established_ctx"
    by (auto intro: reach_Init)
  have run1: "SSL_Read serving_env established_ctx [] 0 =
     Return (SEC_E_OK,
             established_ctx\<lparr>incoming := [23, 33, 1] @ replicate (TLS_MAX_PACKET_SIZE - 3) 0,
                             bufferLen := 3, decryptedData := Some 1, decryptedSize := 1\<rparr>,
             [EvSocketRead 3 TLS_MAX_PACKET_SIZE SEC_E_OK [23, 33, 1],
              EvDecryptMessage 1 [23, 33, 1]
                \<lparr>dec_sec = SEC_E_OK, dec_written = [23, 33, 1], dec_data = (1, 1),
                   dec_extra = None\<rparr>],
             [])"
    by (simp add: SSL_Read_def SSL_Read_loop.simps SSL_Read_decrypt_def SSL_ReadDecrypted_def
          SSL_RecvRaw_def read_window_def to_int32_def to_uint32_def
          serving_env_def decrypting_env_def quiet_env_def established_ctx_def
          cleared_SSLContext_def TLS_MAX_PACKET_SIZE_def Let_def memmove_front_def
          store_bytes_def in_place_def)
  have run2: "SSL_Read empty_record_env established_ctx [] 5 =
     Return (SEC_E_OK,
             established_ctx\<lparr>incoming := [23, 33, 1] @ replicate (TLS_MAX_PACKET_SIZE - 3) 0\<rparr>,
             [EvSocketRead 3 TLS_MAX_PACKET_SIZE SEC_E_OK [23, 33, 1],
              EvDecryptMessage 1 [23, 33, 1]
                \<lparr>dec_sec = SEC_E_OK, dec_written = [23, 33, 1], dec_data = (1, 0),
                   dec_extra = None\<rparr>],
             [])"
    by (simp add: SSL_Read_def SSL_Read_loop.simps SSL_Read_decrypt_def SSL_ReadDecrypted_def
          SSL_RecvRaw_def read_window_def to_int32_def to_uint32_def
          empty_record_env_def serving_env_def decrypting_env_def quiet_env_def
          established_ctx_def cleared_SSLContext_def TLS_MAX_PACKET_SIZE_def Let_def
          memmove_front_def store_bytes_def in_place_def)
  from r1 run1 r2 run2 show ?thesis by simp
qed

subsection \<open>Writing in chunks\<close>

lemma SSL_WriteChunk_trace:
  assumes "SSL_WriteChunk E s tr data = Return (res, s', tr')"
  shows "\<exists>new. tr' = tr @ new \<and> encrypted_chunks new = [data]
           \<and> (res = SEC_E_OK \<longrightarrow> sent_bytes new = concat (wire_records new))"
proof -
  let ?ch = "cbHeader (sizes s)" and ?ct = "cbTrailer (sizes s)"
  let ?r = "FP_EncryptMessage E tr (context_h s) ?ch data ?ct"
  let ?e = "EvEncryptMessage (context_h s) ?ch data ?ct ?r"
  show ?thesis
  proof (cases "enc_sec ?r = SEC_E_OK")
    case False
    with assms have "tr' = tr @ [?e]" "res \<noteq> SEC_E_OK"
      by (auto simp: SSL_WriteChunk_def Let_def split: if_splits)
    then show ?thesis by (intro exI[of _ "[?e]"]) simp
  next
    case True
    with assms have
      "SSL_SendRaw E (tr @ [?e]) (socket s) (record_bytes ?ch (length data) ?ct ?r) = Return (res, tr')"
      by (auto simp: SSL_WriteChunk_def Let_def record_bytes_def split: if_splits exec.splits)
    from SSL_SendRaw_only_writes[OF this] obtain new where
      "tr' = (tr @ [?e]) @ new"
      "res = SEC_E_OK \<longrightarrow> sent_bytes new = record_bytes ?ch (length data) ?ct ?r"
      "encrypted_chunks new = []" "wire_records new = []" by blast
    with True show ?thesis
      by (intro exI[of _ "?e # new"]) simp
  qed
qed

lemma SSL_Write_loop_trace:
  "SSL_Write_loop E fuel s tr data w = Return (SEC_E_OK, s', tr', wrote) \<Longrightarrow>
     wrote = w + length data \<and>
     (\<exists>new. tr' = tr @ new \<and> concat (encrypted_chunks new) = data
        \<and> (\<forall>c\<in>set (encrypted_chunks new). length c \<le> cbMaximumMessage (sizes s))
        \<and> sent_bytes new = concat (wire_records new))"
proof (induction E fuel s tr data w rule: SSL_Write_loop.induct)
  case (1 E fuel s tr wrote)
  then show ?case by simp
next
  case (2 E s tr b bs wrote)
  then show ?case by simp
next
  case (3 E fuel s tr b bs w)
  let ?len = "min (length (b # bs)) (cbMaximumMessage (sizes s))"
  from "3.prems" obtain tr1 where
    wc: "SSL_WriteChunk E s tr (take ?len (b # bs)) = Return (SEC_E_OK, s, tr1)"
    and rest: "SSL_Write_loop E fuel s tr1 (drop ?len (b # bs)) (w + ?len) =
                 Return (SEC_E_OK, s', tr', wrote)"
    by (auto simp: Let_def split: exec.splits if_splits dest: SSL_WriteChunk_session)
  from SSL_WriteChunk_trace[OF wc] obtain n1 where n1: "tr1 = tr @ n1"
    "encrypted_chunks n1 = [take ?len (b # bs)]" "sent_bytes n1 = concat (wire_records n1)"
    by auto
  from "3.IH"[OF refl wc refl refl _ rest]
  obtain n2 where n2: "wrote = w + ?len + length (drop ?len (b # bs))" "tr' = tr1 @ n2"
    "concat (encrypted_chunks n2) = drop ?len (b # bs)"
    "\<forall>c\<in>set (encrypted_chunks n2). length c \<le> cbMaximumMessage (sizes s)"
    "sent_bytes n2 = concat (wire_records n2)"
    by auto
  have "wrote = w + length (b # bs)" using n2(1) by simp
  moreover have "tr' = tr @ (n1 @ n2)" using n1 n2 by simp
  moreover have "concat (encrypted_chunks (n1 @ n2)) = take ?len (b # bs) @ drop ?len (b # bs)"
    using n1 n2 by (simp only: encrypted_chunks_append concat_append concat.simps append_Nil2)
  then have "concat (encrypted_chunks (n1 @ n2)) = b # bs"
    by (simp only: append_take_drop_id)
  moreover have "\<forall>c\<in>set (encrypted_chunks (n1 @ n2)). length c \<le> cbMaximumMessage (sizes s)"
    using n1 n2 by (simp add: encrypted_chunks_append)
  moreover have "sent_bytes (n1 @ n2) = concat (wire_records (n1 @ n2))"
    using n1 n2 by (simp add: sent_bytes_append wire_records_append)
  ultimately show ?case by blast
qed

text \<open>The chunks of a trace, and the segment of transport writes that follows each.\<close>

lemma no_chunks_no_encrypt:
  "encrypted_chunks xs = [] \<Longrightarrow> list_all (\<lambda>e. \<not> is_encrypt e) xs"
  by (induction xs rule: encrypted_chunks.induct) auto

lemma chunk_sends_skip:
  "list_all (\<lambda>e. \<not> is_encrypt e) xs \<Longrightarrow> chunk_sends (xs @ ys) = chunk_sends ys"
  by (induction xs rule: chunk_sends.induct) auto

lemma takeWhile_segment:
  assumes "list_all (\<lambda>e. \<not> is_encrypt e) xs" and "ys = [] \<or> is_encrypt (hd ys)"
  shows "takeWhile (\<lambda>e. \<not> is_encrypt e) (xs @ ys) = xs"
proof -
  from assms(2) have "takeWhile (\<lambda>e. \<not> is_encrypt e) ys = []"
    by (cases ys) auto
  with assms(1) show ?thesis
    by (simp add: takeWhile_append2 list_all_iff)
qed

lemma SSL_WriteChunk_sends:
  assumes "SSL_WriteChunk E s tr data = Return (res, s', tr')"
  shows "\<exists>r sends.
           tr' = tr @ EvEncryptMessage (context_h s) (cbHeader (sizes s)) data (cbTrailer (sizes s)) r
                      # sends
           \<and> list_all (\<lambda>e. \<not> is_encrypt e) sends
           \<and> (res = SEC_E_OK \<longrightarrow>
                enc_sec r = SEC_E_OK
                \<and> sent_bytes sends
                    = record_bytes (cbHeader (sizes s)) (length data) (cbTrailer (sizes s)) r
                \<and> length (record_bytes (cbHeader (sizes s)) (length data) (cbTrailer (sizes s)) r)
                    = fst (enc_cb r) + fst (snd (enc_cb r)) + snd (snd (enc_cb r)))"
proof -
  let ?ch = "cbHeader (sizes s)" and ?ct = "cbTrailer (sizes s)"
  let ?r = "FP_EncryptMessage E tr (context_h s) ?ch data ?ct"
  let ?e = "EvEncryptMessage (context_h s) ?ch data ?ct ?r"
  show ?thesis
  proof (cases "enc_sec ?r = SEC_E_OK")
    case False
    with assms have "tr' = tr @ [?e]" "res \<noteq> SEC_E_OK"
      by (auto simp: SSL_WriteChunk_def Let_def split: if_splits)
    then show ?thesis by (intro exI[of _ ?r] exI[of _ "[]"]) simp
  next
    case True
    with assms have send:
      "SSL_SendRaw E (tr @ [?e]) (socket s) (record_bytes ?ch (length data) ?ct ?r) = Return (res, tr')"
      and len: "length (record_bytes ?ch (length data) ?ct ?r)
                  = fst (enc_cb ?r) + fst (snd (enc_cb ?r)) + snd (snd (enc_cb ?r))"
      by (auto simp: SSL_WriteChunk_def Let_def record_bytes_def split: if_splits exec.splits)
    from SSL_SendRaw_only_writes[OF send] obtain new where new:
      "tr' = (tr @ [?e]) @ new"
      "res = SEC_E_OK \<longrightarrow> sent_bytes new = record_bytes ?ch (length data) ?ct ?r"
      "encrypted_chunks new = []" by blast
    from no_chunks_no_encrypt[OF new(3)] new(1,2) True len show ?thesis
      by (intro exI[of _ ?r] exI[of _ new]) simp
  qed
qed

text \<open>With \<^verbatim>\<open>cbMaximumMessage = 0\<close> every chunk is empty and the loop never gets through.\<close>

lemma SSL_Write_loop_stuck:
  "cbMaximumMessage (sizes s) = 0 \<Longrightarrow>
     SSL_Write_loop E fuel s tr (b # bs) w \<noteq> Return (SEC_E_OK, s', tr', wrote)"
proof (induction fuel arbitrary: tr w)
  case 0
  show ?case by simp
next
  case (Suc fuel)
  show ?case
  proof
    assume "SSL_Write_loop E (Suc fuel) s tr (b # bs) w = Return (SEC_E_OK, s', tr', wrote)"
    with Suc.prems obtain tr1 where
      "SSL_Write_loop E fuel s tr1 (b # bs) w = Return (SEC_E_OK, s', tr', wrote)"
      by (auto simp: Let_def split: exec.splits if_splits dest: SSL_WriteChunk_session)
    with Suc.IH[OF Suc.prems] show False by blast
  qed
qed

lemma SSL_Write_loop_chunks:
  "SSL_Write_loop E fuel s tr data w = Return (SEC_E_OK, s', tr', wrote) \<Longrightarrow>
     \<exists>new. tr' = tr @ new \<and> (new = [] \<or> is_encrypt (hd new))
        \<and> concat (map cs_plain (chunk_sends new)) = data
        \<and> list_all (sent_as_record s) (chunk_sends new)
        \<and> sent_bytes new = concat (map cs_sent (chunk_sends new))"
proof (induction E fuel s tr data w rule: SSL_Write_loop.induct)
  case (1 E fuel s tr wrote)
  then show ?case by simp
next
  case (2 E s tr b bs wrote)
  then show ?case by simp
next
  case (3 E fuel s tr b bs w)
  let ?len = "min (length (b # bs)) (cbMaximumMessage (sizes s))"
  let ?chunk = "take ?len (b # bs)"
  from "3.prems" obtain tr1 where
    wc: "SSL_WriteChunk E s tr ?chunk = Return (SEC_E_OK, s, tr1)"
    and rest: "SSL_Write_loop E fuel s tr1 (drop ?len (b # bs)) (w + ?len) =
                 Return (SEC_E_OK, s', tr', wrote)"
    by (auto simp: Let_def split: exec.splits if_splits dest: SSL_WriteChunk_session)
  have pos: "0 < cbMaximumMessage (sizes s)"
  proof (rule ccontr)
    assume "\<not> 0 < cbMaximumMessage (sizes s)"
    then have "cbMaximumMessage (sizes s) = 0" by simp
    from SSL_Write_loop_stuck[OF this] "3.prems" show False by blast
  qed
  then have ne: "?chunk \<noteq> []" by simp
  have le: "length ?chunk \<le> cbMaximumMessage (sizes s)" by simp
  from SSL_WriteChunk_sends[OF wc] obtain r sends where
    tr1: "tr1 = tr @ EvEncryptMessage (context_h s) (cbHeader (sizes s)) ?chunk (cbTrailer (sizes s)) r
                    # sends"
    and quiet: "list_all (\<lambda>e. \<not> is_encrypt e) sends"
    and ok: "enc_sec r = SEC_E_OK"
    and sent: "sent_bytes sends
                 = record_bytes (cbHeader (sizes s)) (length ?chunk) (cbTrailer (sizes s)) r"
    and total: "length (record_bytes (cbHeader (sizes s)) (length ?chunk) (cbTrailer (sizes s)) r)
                 = fst (enc_cb r) + fst (snd (enc_cb r)) + snd (snd (enc_cb r))"
    by auto
  from "3.IH"[OF refl wc refl refl _ rest]
  obtain n2 where n2: "tr' = tr1 @ n2" "n2 = [] \<or> is_encrypt (hd n2)"
    "concat (map cs_plain (chunk_sends n2)) = drop ?len (b # bs)"
    "list_all (sent_as_record s) (chunk_sends n2)"
    "sent_bytes n2 = concat (map cs_sent (chunk_sends n2))"
    by auto
  let ?e = "EvEncryptMessage (context_h s) (cbHeader (sizes s)) ?chunk (cbTrailer (sizes s)) r"
  let ?c = "\<lparr>cs_header = cbHeader (sizes s), cs_plain = ?chunk, cs_trailer = cbTrailer (sizes s),
             cs_reply = r, cs_sent = sent_bytes sends\<rparr>"
  let ?new = "?e # sends @ n2"
  have cs: "chunk_sends ?new = ?c # chunk_sends n2"
    using takeWhile_segment[OF quiet n2(2)] chunk_sends_skip[OF quiet, of n2] by simp
  have rec: "sent_as_record s ?c"
    using ne le ok sent total by (simp add: sent_as_record_def)
  have "tr' = tr @ ?new" using tr1 n2(1) by simp
  moreover have "?new = [] \<or> is_encrypt (hd ?new)" by simp
  moreover have "concat (map cs_plain (chunk_sends ?new)) = b # bs"
  proof -
    have "concat (map cs_plain (chunk_sends ?new)) = ?chunk @ drop ?len (b # bs)"
      using n2(3) by (simp only: cs list.map concat.simps chunk_send.simps)
    then show ?thesis by (simp only: append_take_drop_id)
  qed
  moreover have "list_all (sent_as_record s) (chunk_sends ?new)"
    unfolding cs using rec n2(4) by simp
  moreover have "sent_bytes ?new = concat (map cs_sent (chunk_sends ?new))"
  proof -
    have "sent_bytes ?new = sent_bytes sends @ sent_bytes n2"
      using sent_bytes_append[of "[?e]" "sends @ n2"] by (simp add: sent_bytes_append)
    then show ?thesis using n2(5)
      by (simp only: cs list.map concat.simps chunk_send.simps)
  qed
  ultimately show ?case by blast
qed

text \<open>
  C1. If \<^verbatim>\<open>SSL_Write\<close> returns success, \<^verbatim>\<open>*wrote\<close> is \<^verbatim>\<open>count\<close>, and the plaintexts
  it handed to the engine, one after the other, make up the input. Every one of them
  is a chunk that is not empty and no longer than \<^verbatim>\<open>sizes.cbMaximumMessage\<close>, the
  engine encrypted it with success, and the bytes the transport accepted after that
  encryption and before the next one are the record the engine produced for it
  (header, ciphertext, trailer, the \<^verbatim>\<open>total\<close> bytes). The transport accepted nothing
  else during the call, so what went out is these records, one after the other.
\<close>

theorem SSL_Write_all:
  assumes "SSL_Write E fuel s tr data = Return (SEC_E_OK, s', tr', wrote)"
  shows "wrote = length data \<and>
         concat (encrypted_chunks (drop (length tr) tr')) = data \<and>
         (\<forall>c\<in>set (encrypted_chunks (drop (length tr) tr')). length c \<le> cbMaximumMessage (sizes s)) \<and>
         sent_bytes (drop (length tr) tr') = concat (wire_records (drop (length tr) tr')) \<and>
         concat (map cs_plain (chunk_sends (drop (length tr) tr'))) = data \<and>
         list_all (sent_as_record s) (chunk_sends (drop (length tr) tr')) \<and>
         sent_bytes (drop (length tr) tr') = concat (map cs_sent (chunk_sends (drop (length tr) tr')))"
proof -
  from assms have loop: "SSL_Write_loop E fuel s tr data 0 = Return (SEC_E_OK, s', tr', wrote)"
    by (simp add: SSL_Write_def)
  from SSL_Write_loop_trace[OF loop] have
    "wrote = length data \<and>
     concat (encrypted_chunks (drop (length tr) tr')) = data \<and>
     (\<forall>c\<in>set (encrypted_chunks (drop (length tr) tr')). length c \<le> cbMaximumMessage (sizes s)) \<and>
     sent_bytes (drop (length tr) tr') = concat (wire_records (drop (length tr) tr'))"
    by auto
  moreover from SSL_Write_loop_chunks[OF loop] have
    "concat (map cs_plain (chunk_sends (drop (length tr) tr'))) = data \<and>
     list_all (sent_as_record s) (chunk_sends (drop (length tr) tr')) \<and>
     sent_bytes (drop (length tr) tr') = concat (map cs_sent (chunk_sends (drop (length tr) tr')))"
    by auto
  ultimately show ?thesis by simp
qed

theorem SSL_Write_all_witness:
  "(\<exists>tr'. SSL_Write quiet_env 2 established_ctx [] [1, 2, 3] =
            Return (SEC_E_OK, established_ctx, tr', 3)
      \<and> encrypted_chunks tr' = [[1, 2], [3]]
      \<and> map cs_sent (chunk_sends tr') = [[22, 1, 2, 0], [22, 3, 0]]
      \<and> list_all (sent_as_record established_ctx) (chunk_sends tr')
      \<and> sent_bytes tr' = [22, 1, 2, 0, 22, 3, 0])"
proof -
  have run: "SSL_Write quiet_env 2 established_ctx [] [1, 2, 3] =
     Return (SEC_E_OK, established_ctx,
       [EvEncryptMessage 1 1 [1, 2] 1
          \<lparr>enc_sec = SEC_E_OK, enc_written = [22, 1, 2, 0], enc_cb = (1, 2, 1)\<rparr>,
        EvSocketWrite 3 [22, 1, 2, 0] SEC_E_OK 4,
        EvEncryptMessage 1 1 [3] 1
          \<lparr>enc_sec = SEC_E_OK, enc_written = [22, 3, 0], enc_cb = (1, 1, 1)\<rparr>,
        EvSocketWrite 3 [22, 3, 0] SEC_E_OK 3], 3)"
    by (simp add: SSL_Write_def SSL_WriteChunk_def SSL_SendRaw.simps numeral_2_eq_2
          quiet_env_def established_ctx_def cleared_SSLContext_def TLS_MAX_PACKET_SIZE_def Let_def)
  from SSL_Write_all[OF run] run show ?thesis
    by (simp add: record_bytes_def)
qed

subsection \<open>Termination\<close>

lemma SSL_SendRaw_returns: "SSL_SendRaw E tr s data \<noteq> OutOfFuel"
proof (induction E tr s data rule: SSL_SendRaw.induct)
  case (1 E tr s data)
  show ?case
  proof (cases "data = []")
    case True
    then show ?thesis by (simp add: SSL_SendRaw_empty)
  next
    case False
    obtain r n where w: "Socket_Write E tr s data = (r, n)"
      by (cases "Socket_Write E tr s data")
    from SSL_SendRaw_step[OF False w] "1.IH"[OF False w[symmetric] refl] show ?thesis
      by (auto split: if_splits)
  qed
qed

lemma SSL_WriteChunk_returns: "SSL_WriteChunk E s tr data \<noteq> OutOfFuel"
  using SSL_SendRaw_returns
  by (auto simp: SSL_WriteChunk_def Let_def split: exec.splits prod.splits)

text \<open>
  With a positive \<^verbatim>\<open>cbMaximumMessage\<close> every pass of the loop of \<^verbatim>\<open>SSL_Write\<close> takes
  at least one byte, so \<^verbatim>\<open>count\<close> passes are enough: the call returns, or leaves
  defined behaviour, but does not run on.
\<close>

lemma SSL_Write_loop_returns:
  "0 < cbMaximumMessage (sizes s) \<Longrightarrow> length data \<le> fuel \<Longrightarrow>
     SSL_Write_loop E fuel s tr data w \<noteq> OutOfFuel"
proof (induction E fuel s tr data w rule: SSL_Write_loop.induct)
  case (1 E fuel s tr wrote)
  then show ?case by simp
next
  case (2 E s tr b bs wrote)
  then show ?case by simp
next
  case (3 E fuel s tr b bs w)
  let ?len = "min (length (b # bs)) (cbMaximumMessage (sizes s))"
  have pos: "0 < ?len" using "3.prems"(1) by simp
  show ?case
  proof (cases "SSL_WriteChunk E s tr (take ?len (b # bs))")
    case OutOfFuel
    then show ?thesis using SSL_WriteChunk_returns by blast
  next
    case Undefined
    then show ?thesis by (simp add: Let_def)
  next
    case (Return x)
    obtain res s' tr' where x: "x = (res, s', tr')" by (cases x)
    with Return have s': "s' = s" using SSL_WriteChunk_session by blast
    show ?thesis
    proof (cases "res = SEC_E_OK")
      case False
      with Return x show ?thesis by (simp add: Let_def)
    next
      case True
      have "length (drop ?len (b # bs)) \<le> fuel"
        using pos "3.prems"(2) by (simp del: drop_Suc_Cons)
      from "3.IH"[OF refl Return x[symmetric] refl _ _ this] True "3.prems"(1) s'
      have "SSL_Write_loop E fuel s' tr' (drop ?len (b # bs)) (w + ?len) \<noteq> OutOfFuel"
        by simp
      with Return x True show ?thesis by (simp add: Let_def)
    qed
  qed
qed

theorem SSL_Write_returns:
  assumes "0 < cbMaximumMessage (sizes s)" and "length data \<le> fuel"
  shows "SSL_Write E fuel s tr data \<noteq> OutOfFuel"
  using SSL_Write_loop_returns[OF assms] by (simp add: SSL_Write_def)

theorem SSL_Write_returns_witness:
  "SSL_Write quiet_env 3 established_ctx [] [1, 2, 3] \<noteq> OutOfFuel"
  using SSL_Write_returns[of established_ctx "[1, 2, 3]" 3 quiet_env "[]"]
  by (simp add: established_ctx_def)

text \<open>
  When \<^verbatim>\<open>SSL_RecvRaw\<close> succeeds, the filled part of the buffer is the old filled part
  followed by the bytes the transport delivered, which are at least one and at most
  the free room.
\<close>

theorem SSL_RecvRaw_appends:
  assumes "SSL_RecvRaw E ctx tr = Return (SEC_E_OK, ctx', tr')"
    and "length (incoming ctx) = TLS_MAX_PACKET_SIZE"
  shows "\<exists>bytes. bytes \<noteq> [] \<and>
           tr' = tr @ [EvSocketRead (socket ctx) (TLS_MAX_PACKET_SIZE - nat (bufferLen ctx))
                         SEC_E_OK bytes] \<and>
           bufferLen ctx' = bufferLen ctx + int (length bytes) \<and>
           take (nat (bufferLen ctx')) (incoming ctx') =
             take (nat (bufferLen ctx)) (incoming ctx) @ bytes"
  using assms
  by (auto simp: SSL_RecvRaw_def Let_def store_bytes_def nat_add_distrib
           split: if_splits prod.splits)

theorem SSL_RecvRaw_appends_witness:
  "(\<exists>ctx'. SSL_RecvRaw delivering_env cleared_SSLContext [] =
            Return (SEC_E_OK, ctx', [EvSocketRead 0 TLS_MAX_PACKET_SIZE SEC_E_OK [23, 33, 1]])
      \<and> bufferLen ctx' = 3 \<and> take 3 (incoming ctx') = [23, 33, 1])"
proof -
  have run: "SSL_RecvRaw delivering_env cleared_SSLContext [] =
     Return (SEC_E_OK,
             cleared_SSLContext\<lparr>incoming := [23, 33, 1] @ replicate (TLS_MAX_PACKET_SIZE - 3) 0,
                                bufferLen := 3\<rparr>,
             [EvSocketRead 0 TLS_MAX_PACKET_SIZE SEC_E_OK [23, 33, 1]])"
    by (simp add: SSL_RecvRaw_def delivering_env_def quiet_env_def cleared_SSLContext_def
          store_bytes_def TLS_MAX_PACKET_SIZE_def Let_def)
  have "length (incoming cleared_SSLContext) = TLS_MAX_PACKET_SIZE"
    by (simp add: cleared_SSLContext_def)
  from SSL_RecvRaw_appends[OF run this] run show ?thesis
    by (simp add: cleared_SSLContext_def)
qed

end
